theory Spec2Isabelle
  imports Main
begin

section \<open>Instants, durations and the calendar\<close>

text \<open>
  The scheduler reads the clock with \<^verbatim>\<open>time.Now()\<close> and builds instants with
  \<^verbatim>\<open>time.Date(y, m, d, h, mi, s, 0, time.Local)\<close>.  An instant is modelled as the
  number of nanoseconds since 0001-01-01 00:00:00 of the proleptic Gregorian calendar;
  \<^verbatim>\<open>time.Local\<close> is taken to be a zone with a fixed offset (no daylight saving
  switch), so that local wall-clock fields are a function of that number.  Go computes on
  64-bit seconds, the model on unbounded integers: the two agree on every instant Go can
  represent.  A \<^verbatim>\<open>time.Duration\<close> is a 64-bit count of nanoseconds.
\<close>

type_synonym time = int
type_synonym duration = int

definition Second :: duration where
  "Second = 1000000000"

definition Minute :: duration where
  "Minute = 60 * Second"

definition Hour :: duration where
  "Hour = 60 * Minute"

text \<open>The three lifecycle states, \<^verbatim>\<open>EXPIRED = iota; NOW; WAIT\<close>.\<close>

datatype state = EXPIRED | NOW | WAIT

datatype weekday = Sunday | Monday | Tuesday | Wednesday | Thursday | Friday | Saturday

definition isLeap :: "int \<Rightarrow> bool" where
  "isLeap y = (y mod 4 = 0 \<and> (y mod 100 \<noteq> 0 \<or> y mod 400 = 0))"

text \<open>Days from 0001-01-01 to the first of January of year \<open>y\<close>.\<close>

definition daysBeforeYear :: "int \<Rightarrow> int" where
  "daysBeforeYear y = 365 * (y - 1) + (y - 1) div 4 - (y - 1) div 100 + (y - 1) div 400"

text \<open>The table \<^verbatim>\<open>daysBefore\<close> of package time: days of a non-leap year before
  month \<open>m + 1\<close>.\<close>

definition daysBefore :: "int \<Rightarrow> int" where
  "daysBefore m =
     (if m \<le> 0 then 0 else if m = 1 then 31 else if m = 2 then 59 else if m = 3 then 90
      else if m = 4 then 120 else if m = 5 then 151 else if m = 6 then 181
      else if m = 7 then 212 else if m = 8 then 243 else if m = 9 then 273
      else if m = 10 then 304 else if m = 11 then 334 else 365)"

text \<open>
  \<^verbatim>\<open>time.Date\<close>: the month is normalised into the year, every other field simply
  overflows into the next larger one, so the result is linear in day, hour, minute and
  second (October 32 is November 1, day 0 is the last day of the month before).
\<close>

definition Date :: "int \<Rightarrow> int \<Rightarrow> int \<Rightarrow> int \<Rightarrow> int \<Rightarrow> int \<Rightarrow> time" where
  "Date y mo d h mi s =
     (let m = (mo - 1) mod 12;
          y' = y + (mo - 1) div 12;
          days = daysBeforeYear y' + daysBefore m
                 + (if isLeap y' \<and> 2 \<le> m then 1 else 0) + (d - 1)
      in (days * 86400 + h * 3600 + mi * 60 + s) * Second)"

text \<open>Whole days since 0001-01-01, and nanoseconds into the day.\<close>

definition absDays :: "time \<Rightarrow> int" where
  "absDays t = t div (24 * Hour)"

text \<open>
  Year and zero-based day of the year of a day count, by the cascade of 400-, 100-, 4-
  and 1-year cycles of package time (\<^verbatim>\<open>n -= n >> 2\<close> turns the fifth century of a
  cycle and the fifth year of a leap cycle, which hold only the extra leap day, back into
  the fourth).
\<close>

definition yearDay :: "int \<Rightarrow> int \<times> int" where
  "yearDay z =
     (let n400 = z div 146097;
          r = z mod 146097;
          n100 = r div 36524 - (r div 36524) div 4;
          r1 = r - 36524 * n100;
          n4 = r1 div 1461;
          r2 = r1 mod 1461;
          n1 = r2 div 365 - (r2 div 365) div 4;
          yday = r2 - 365 * n1
      in (400 * n400 + 100 * n100 + 4 * n4 + n1 + 1, yday))"

definition Year :: "time \<Rightarrow> int" where
  "Year t = fst (yearDay (absDays t))"

text \<open>Month (1 to 12) and day of the month of a day of the year, as package time
  computes them from an estimate of the month that is off by at most one.\<close>

definition monthDay :: "int \<Rightarrow> int \<Rightarrow> int \<times> int" where
  "monthDay y yday =
     (if isLeap y \<and> yday = 31 + 29 - 1 then (2, 29)
      else
        let day = (if isLeap y \<and> yday > 31 + 29 - 1 then yday - 1 else yday);
            m = day div 31;
            e = daysBefore (m + 1)
        in if day \<ge> e then (m + 2, day - e + 1)
           else (m + 1, day - daysBefore m + 1))"

definition Month :: "time \<Rightarrow> int" where
  "Month t = (case yearDay (absDays t) of (y, yd) \<Rightarrow> fst (monthDay y yd))"

definition Day :: "time \<Rightarrow> int" where
  "Day t = (case yearDay (absDays t) of (y, yd) \<Rightarrow> snd (monthDay y yd))"

text \<open>\<^verbatim>\<open>t.Clock()\<close>: hour, minute and second within the day.\<close>

definition ClockHour :: "time \<Rightarrow> int" where
  "ClockHour t = (t mod (24 * Hour)) div Hour"

definition ClockMinute :: "time \<Rightarrow> int" where
  "ClockMinute t = (t mod Hour) div Minute"

definition ClockSecond :: "time \<Rightarrow> int" where
  "ClockSecond t = (t mod Minute) div Second"

text \<open>0001-01-01 is a Monday.\<close>

definition weekdayOfIndex :: "int \<Rightarrow> weekday" where
  "weekdayOfIndex i =
     (if i = 0 then Sunday else if i = 1 then Monday else if i = 2 then Tuesday
      else if i = 3 then Wednesday else if i = 4 then Thursday else if i = 5 then Friday
      else Saturday)"

fun weekdayIndex :: "weekday \<Rightarrow> int" where
  "weekdayIndex Sunday = 0"
| "weekdayIndex Monday = 1"
| "weekdayIndex Tuesday = 2"
| "weekdayIndex Wednesday = 3"
| "weekdayIndex Thursday = 4"
| "weekdayIndex Friday = 5"
| "weekdayIndex Saturday = 6"

definition Weekday :: "time \<Rightarrow> weekday" where
  "Weekday t = weekdayOfIndex ((absDays t + 1) mod 7)"

text \<open>\<^verbatim>\<open>daysIn\<close> of package time: the length of a month.\<close>

definition daysIn :: "int \<Rightarrow> int \<Rightarrow> int" where
  "daysIn mo y = (if mo = 2 \<and> isLeap y then 29 else daysBefore mo - daysBefore (mo - 1))"

text \<open>The fields of a date and a time of day that \<^verbatim>\<open>time.Date\<close> takes as they are,
  with nothing carried into the next larger field.\<close>

definition validDate :: "int \<Rightarrow> int \<Rightarrow> int \<Rightarrow> bool" where
  "validDate y mo d = (1 \<le> mo \<and> mo \<le> 12 \<and> 1 \<le> d \<and> d \<le> daysIn mo y)"

definition validClock :: "int \<Rightarrow> int \<Rightarrow> int \<Rightarrow> bool" where
  "validClock h mi s = (0 \<le> h \<and> h < 24 \<and> 0 \<le> mi \<and> mi < 60 \<and> 0 \<le> s \<and> s < 60)"


section \<open>Strings, scanning and patterns\<close>

text \<open>
  Go strings are byte strings.  The helpers of packages strings, fmt, strconv and regexp
  that the parser calls are modelled on ASCII text, each under the name of the library
  function it stands for.
\<close>

fun Split :: "string \<Rightarrow> char \<Rightarrow> string list" where
  "Split [] sep = [[]]"
| "Split (c # cs) sep =
     (if c = sep then [] # Split cs sep
      else (case Split cs sep of [] \<Rightarrow> [[c]] | w # ws \<Rightarrow> (c # w) # ws))"

fun Join :: "string list \<Rightarrow> string \<Rightarrow> string" where
  "Join [] sep = []"
| "Join [w] sep = w"
| "Join (w # v # ws) sep = w @ sep @ Join (v # ws) sep"

definition HasPrefix :: "string \<Rightarrow> string \<Rightarrow> bool" where
  "HasPrefix s p = (take (length p) s = p)"

definition TrimPrefix :: "string \<Rightarrow> string \<Rightarrow> string" where
  "TrimPrefix s p = (if HasPrefix s p then drop (length p) s else s)"

definition Count :: "string \<Rightarrow> char \<Rightarrow> nat" where
  "Count s c = length (filter (\<lambda>x. x = c) s)"

definition isDigit :: "char \<Rightarrow> bool" where
  "isDigit c = (c \<in> set ''0123456789'')"

definition isLower :: "char \<Rightarrow> bool" where
  "isLower c = (c \<in> set ''abcdefghijklmnopqrstuvwxyz'')"

definition isUpper :: "char \<Rightarrow> bool" where
  "isUpper c = (c \<in> set ''ABCDEFGHIJKLMNOPQRSTUVWXYZ'')"

definition toLower :: "char \<Rightarrow> char" where
  "toLower c =
     (case map_of (zip ''ABCDEFGHIJKLMNOPQRSTUVWXYZ'' ''abcdefghijklmnopqrstuvwxyz'') c of
        None \<Rightarrow> c
      | Some l \<Rightarrow> l)"

definition ToLower :: "string \<Rightarrow> string" where
  "ToLower s = map toLower s"

definition isSpace :: "char \<Rightarrow> bool" where
  "isSpace c = (c \<in> set [CHR 0x09, CHR 0x0B, CHR 0x0C, CHR 0x0D, CHR 0x20])"

definition TrimSpace :: "string \<Rightarrow> string" where
  "TrimSpace s =
     rev (dropWhile (\<lambda>c. isSpace c \<or> c = CHR 0x0A)
       (rev (dropWhile (\<lambda>c. isSpace c \<or> c = CHR 0x0A) s)))"

definition digitVal :: "char \<Rightarrow> int" where
  "digitVal c = int (of_char c) - 48"

definition digitsVal :: "string \<Rightarrow> int" where
  "digitsVal ds = foldl (\<lambda>a c. 10 * a + digitVal c) 0 ds"

text \<open>The range of Go's \<^verbatim>\<open>int\<close> and \<^verbatim>\<open>int64\<close> on the 64-bit platforms the daemon
  runs on, and the wrap-around of 64-bit arithmetic.\<close>

definition inInt64 :: "int \<Rightarrow> bool" where
  "inInt64 v = (- (2 ^ 63) \<le> v \<and> v < 2 ^ 63)"

definition wrap64 :: "int \<Rightarrow> int" where
  "wrap64 v = (v + 2 ^ 63) mod 2 ^ 64 - 2 ^ 63"

text \<open>
  The verb \<^verbatim>\<open>%d\<close> of \<^verbatim>\<open>fmt.Sscanf\<close>: blanks are skipped, a sign is accepted, then
  at least one decimal digit is required and the value has to fit the operand.
\<close>

definition scanInt :: "string \<Rightarrow> (int \<times> string) option" where
  "scanInt s =
     (let s1 = dropWhile isSpace s;
          neg = (case s1 of [] \<Rightarrow> False | c # r \<Rightarrow> c = CHR ''-'');
          s2 = (case s1 of [] \<Rightarrow> [] | c # r \<Rightarrow> if c = CHR ''-'' \<or> c = CHR ''+'' then r else s1);
          ds = takeWhile isDigit s2;
          v = (if neg then - digitsVal ds else digitsVal ds)
      in if ds = [] \<or> \<not> inInt64 v then None else Some (v, dropWhile isDigit s2))"

text \<open>
  A format is a list of verbs and literal characters.  \<open>Sscanf\<close> returns the values
  stored into the operands so far and whether the error is non-nil; the count \<^verbatim>\<open>n\<close>
  that Go returns is the length of that list, at most the number of verbs.  Input left
  over after the format is exhausted is not an error.
\<close>

datatype fmt = Verb_d | Lit char

fun Sscanf :: "string \<Rightarrow> fmt list \<Rightarrow> int list \<times> bool" where
  "Sscanf s [] = ([], False)"
| "Sscanf s (Verb_d # f) =
     (case scanInt s of
        None \<Rightarrow> ([], True)
      | Some (v, rest) \<Rightarrow> (case Sscanf rest f of (vs, err) \<Rightarrow> (v # vs, err)))"
| "Sscanf s (Lit c # f) =
     (case s of
        [] \<Rightarrow> ([], True)
      | x # xs \<Rightarrow> if x = c then Sscanf xs f else ([], True))"

text \<open>\<^verbatim>\<open>strconv.Atoi\<close> on a string of decimal digits with an optional sign.\<close>

definition Atoi :: "string \<Rightarrow> int option" where
  "Atoi s =
     (let neg = (case s of [] \<Rightarrow> False | c # r \<Rightarrow> c = CHR ''-'');
          ds = (case s of [] \<Rightarrow> [] | c # r \<Rightarrow> if c = CHR ''-'' \<or> c = CHR ''+'' then r else s);
          v = (if neg then - digitsVal ds else digitsVal ds)
      in if ds = [] \<or> \<not> list_all isDigit ds \<or> \<not> inInt64 v then None else Some v)"

subsection \<open>Regular expressions\<close>

text \<open>
  The patterns of the parser use character classes, sequence, alternative, option and
  repetition of a class only.  \<open>rmatch r s\<close> lists what is left of \<open>s\<close> after each way
  of matching \<open>r\<close> against a prefix of it; a pattern matches the whole of \<open>s\<close> when
  nothing is left in one of them.
\<close>

datatype cls = Digit | Letter | AnyChar | Ch char | ChI char

fun inCls :: "cls \<Rightarrow> char \<Rightarrow> bool" where
  "inCls Digit c = isDigit c"
| "inCls Letter c = (isLower c \<or> isUpper c)"
| "inCls AnyChar c = True"
| "inCls (Ch a) c = (c = a)"
| "inCls (ChI a) c = (toLower c = a)"

datatype rx = Eps | One cls | Seq rx rx | Alt rx rx | Opt rx | Star cls

fun rmatch :: "rx \<Rightarrow> string \<Rightarrow> string list" where
  "rmatch Eps s = [s]"
| "rmatch (One k) [] = []"
| "rmatch (One k) (c # cs) = (if inCls k c then [cs] else [])"
| "rmatch (Seq r1 r2) s = concat (map (rmatch r2) (rmatch r1 s))"
| "rmatch (Alt r1 r2) s = rmatch r1 s @ rmatch r2 s"
| "rmatch (Opt r) s = rmatch r s @ [s]"
| "rmatch (Star k) [] = [[]]"
| "rmatch (Star k) (c # cs) = (if inCls k c then rmatch (Star k) cs @ [c # cs] else [c # cs])"

definition fullMatch :: "rx \<Rightarrow> string \<Rightarrow> bool" where
  "fullMatch r s = ([] \<in> set (rmatch r s))"

fun seqs :: "rx list \<Rightarrow> rx" where
  "seqs [] = Eps"
| "seqs [r] = r"
| "seqs (r # rs) = Seq r (seqs rs)"

definition word :: "string \<Rightarrow> rx" where
  "word w = seqs (map (\<lambda>c. One (ChI c)) w)"

definition digits12 :: rx where
  "digits12 = Seq (One Digit) (Opt (One Digit))"

text \<open>
  \<^verbatim>\<open>MatchString\<close> asks for a match anywhere in the token, and in a pattern
  \<^verbatim>\<open>^A|B$\<close> the alternative binds weaker than the anchors: it is \<^verbatim>\<open>(^A)|(B$)\<close>.
  So the date pattern accepts a token that starts with a three-field date or ends with a
  two-field one, and the weekday pattern a token that starts with \<^verbatim>\<open>sun\<close>, contains
  one of \<^verbatim>\<open>mon\<close> to \<^verbatim>\<open>fri\<close>, or ends with \<^verbatim>\<open>sat\<close> and letters.  Each pattern is
  written here as the expression the whole token has to match.
\<close>

text \<open>\<^verbatim>\<open>^([0-9]{2})?[0-9]{2}-[0-9]{1,2}-[0-9]{1,2}|[0-9]{1,2}-[0-9]{1,2}$\<close>\<close>

definition datePattern :: rx where
  "datePattern =
     Alt (seqs [Opt (Seq (One Digit) (One Digit)), One Digit, One Digit, One (Ch CHR ''-''),
                digits12, One (Ch CHR ''-''), digits12, Star AnyChar])
         (seqs [Star AnyChar, digits12, One (Ch CHR ''-''), digits12])"

text \<open>\<^verbatim>\<open>^[0-9]{1,2}:[0-9]{1,2}(:[0-9]{1,2})?$\<close>\<close>

definition timePattern :: rx where
  "timePattern =
     seqs [digits12, One (Ch CHR '':''), digits12, Opt (Seq (One (Ch CHR '':'')) digits12)]"

text \<open>\<^verbatim>\<open>^[0-9]{1,2}(:[0-9]{1,2})?$\<close>\<close>

definition minuteSecondPattern :: rx where
  "minuteSecondPattern = seqs [digits12, Opt (Seq (One (Ch CHR '':'')) digits12)]"

text \<open>\<^verbatim>\<open>(?i)^sun[a-z]*|mon[a-z]*|tue[a-z]*|wed[a-z]*|thu[a-z]*|fri[a-z]*|sat[a-z]*$\<close>\<close>

definition dayOfWeekPattern :: rx where
  "dayOfWeekPattern =
     Alt (seqs [word ''sun'', Star AnyChar])
    (Alt (seqs [Star AnyChar,
                Alt (word ''mon'') (Alt (word ''tue'') (Alt (word ''wed'')
                  (Alt (word ''thu'') (word ''fri'')))),
                Star AnyChar])
         (seqs [Star AnyChar, word ''sat'', Star Letter]))"

text \<open>\<^verbatim>\<open>(?i)^[0-9]{1,2}(st|nd|rd|th)$\<close>\<close>

definition dayOfMonthPattern :: rx where
  "dayOfMonthPattern =
     seqs [digits12, Alt (word ''st'') (Alt (word ''nd'') (Alt (word ''rd'') (word ''th'')))]"

text \<open>\<^verbatim>\<open>(?i)^~[0-9]+(h[a-z]*|m[a-z]*|s[a-z]*)$\<close>\<close>

definition durationPattern :: rx where
  "durationPattern =
     seqs [One (Ch CHR ''~''), One Digit, Star Digit,
           Alt (One (ChI CHR ''h'')) (Alt (One (ChI CHR ''m'')) (One (ChI CHR ''s''))),
           Star Letter]"

definition MatchString :: "rx \<Rightarrow> string \<Rightarrow> bool" where
  "MatchString p s = fullMatch p s"


section \<open>The schedule grammar\<close>

text \<open>The local variables of \<^verbatim>\<open>parsePlan\<close> that the token loop updates, all zero at
  the start (the zero weekday is Sunday).\<close>

record pstate =
  year :: int
  month :: int
  day :: int
  hour :: int
  minute :: int
  second :: int
  isRepeat :: bool
  isHourRepeat :: bool
  isDayRepeat :: bool
  isWeekRepeat :: bool
  isMonthRepeat :: bool
  dayOfWeek :: weekday
  duration :: duration

definition initial :: pstate where
  "initial =
     \<lparr>year = 0, month = 0, day = 0, hour = 0, minute = 0, second = 0,
      isRepeat = False, isHourRepeat = False, isDayRepeat = False, isWeekRepeat = False,
      isMonthRepeat = False, dayOfWeek = Sunday, duration = 0\<rparr>"

text \<open>The errors the parser returns, by their messages, and the run-time panic of an
  index out of range.\<close>

datatype error =
    ErrParseDate | ErrParseTime | ErrParseMinuteSecond | ErrParseMinute
  | ErrParseDayOfWeek | ErrParseDayOfMonth | ErrAtoi | ErrInvalidTimeSpec
  | ErrParseDatetime | Panic

text \<open>\<^verbatim>\<open>parseDate\<close>.  Both branches compare the number of scanned fields with 3.\<close>

definition parseDate :: "time \<Rightarrow> string \<Rightarrow> pstate \<Rightarrow> error + pstate" where
  "parseDate now spec st =
     (let dashCount = Count spec CHR ''-'' in
      if dashCount = 2 then
        (case Sscanf spec [Verb_d, Lit CHR ''-'', Verb_d, Lit CHR ''-'', Verb_d] of
           (vs, err) \<Rightarrow>
             if length vs \<noteq> 3 \<or> err then Inl ErrParseDate
             else Inr (st\<lparr>year := (if vs ! 0 < 1000 then vs ! 0 + 2000 else vs ! 0),
                          month := vs ! 1, day := vs ! 2\<rparr>))
      else if dashCount = 1 then
        (case Sscanf spec [Verb_d, Lit CHR ''-'', Verb_d] of
           (vs, err) \<Rightarrow>
             if length vs \<noteq> 3 \<or> err then Inl ErrParseDate
             else Inr (st\<lparr>month := vs ! 0, day := vs ! 1, year := Year now\<rparr>))
      else Inr st)"

definition parseTime :: "string \<Rightarrow> pstate \<Rightarrow> error + pstate" where
  "parseTime spec st =
     (let semiCount = Count spec CHR '':'' in
      if semiCount = 2 then
        (case Sscanf spec [Verb_d, Lit CHR '':'', Verb_d, Lit CHR '':'', Verb_d] of
           (vs, err) \<Rightarrow>
             if length vs \<noteq> 3 \<or> err then Inl ErrParseTime
             else Inr (st\<lparr>hour := vs ! 0, minute := vs ! 1, second := vs ! 2\<rparr>))
      else if semiCount = 1 then
        (case Sscanf spec [Verb_d, Lit CHR '':'', Verb_d] of
           (vs, err) \<Rightarrow>
             if length vs \<noteq> 2 \<or> err then Inl ErrParseTime
             else Inr (st\<lparr>hour := vs ! 0, minute := vs ! 1\<rparr>))
      else Inr st)"

definition parseMinuteSecond :: "string \<Rightarrow> pstate \<Rightarrow> error + pstate" where
  "parseMinuteSecond spec st =
     (if CHR '':'' \<in> set spec then
        (case Sscanf spec [Verb_d, Lit CHR '':'', Verb_d] of
           (vs, err) \<Rightarrow>
             if length vs \<noteq> 2 \<or> err then Inl ErrParseMinuteSecond
             else Inr (st\<lparr>minute := vs ! 0, second := vs ! 1\<rparr>))
      else
        (case Sscanf spec [Verb_d] of
           (vs, err) \<Rightarrow>
             if length vs \<noteq> 1 \<or> err then Inl ErrParseMinute
             else Inr (st\<lparr>minute := vs ! 0\<rparr>)))"

definition parseDayOfWeek :: "string \<Rightarrow> pstate \<Rightarrow> error + pstate" where
  "parseDayOfWeek spec st =
     (let l = ToLower spec in
      if HasPrefix l ''sun'' then Inr (st\<lparr>dayOfWeek := Sunday\<rparr>)
      else if HasPrefix l ''mon'' then Inr (st\<lparr>dayOfWeek := Monday\<rparr>)
      else if HasPrefix l ''tue'' then Inr (st\<lparr>dayOfWeek := Tuesday\<rparr>)
      else if HasPrefix l ''wed'' then Inr (st\<lparr>dayOfWeek := Wednesday\<rparr>)
      else if HasPrefix l ''thu'' then Inr (st\<lparr>dayOfWeek := Thursday\<rparr>)
      else if HasPrefix l ''fri'' then Inr (st\<lparr>dayOfWeek := Friday\<rparr>)
      else if HasPrefix l ''sat'' then Inr (st\<lparr>dayOfWeek := Saturday\<rparr>)
      else Inl ErrParseDayOfWeek)"

text \<open>\<^verbatim>\<open>parseDayOfMonth\<close>: the first run of digits of the token, through
  \<^verbatim>\<open>strconv.Atoi\<close>; no range is checked.\<close>

definition parseDayOfMonth :: "string \<Rightarrow> pstate \<Rightarrow> error + pstate" where
  "parseDayOfMonth spec st =
     (let ds = takeWhile isDigit (dropWhile (\<lambda>c. \<not> isDigit c) spec) in
      if ds = [] then Inl ErrParseDayOfMonth
      else (case Atoi ds of
              None \<Rightarrow> Inl ErrParseDayOfMonth
            | Some d \<Rightarrow> Inr (st\<lparr>day := d\<rparr>)))"

text \<open>\<^verbatim>\<open>parseDuration\<close>, called on tokens of the duration pattern: group 1 is the
  digits after the tilde, group 2 the letters after them.  The product is a 64-bit one.\<close>

definition parseDuration :: "string \<Rightarrow> pstate \<Rightarrow> error + pstate" where
  "parseDuration spec st =
     (let g1 = takeWhile isDigit (drop 1 spec);
          g2 = dropWhile isDigit (drop 1 spec)
      in case Atoi g1 of
           None \<Rightarrow> Inl ErrAtoi
         | Some n \<Rightarrow>
             (case g2 of
                [] \<Rightarrow> Inl Panic
              | u # us \<Rightarrow>
                  if u = CHR ''h'' \<or> u = CHR ''H'' then Inr (st\<lparr>duration := wrap64 (Hour * n)\<rparr>)
                  else if u = CHR ''m'' \<or> u = CHR ''M'' then
                    Inr (st\<lparr>duration := wrap64 (Minute * n)\<rparr>)
                  else if u = CHR ''s'' \<or> u = CHR ''S'' then
                    Inr (st\<lparr>duration := wrap64 (Second * n)\<rparr>)
                  else Inr st))"

text \<open>One round of the \<^verbatim>\<open>switch\<close> over a token: the first case whose guard holds
  runs; a token no case takes is reported on the console and skipped.\<close>

definition parseSpec :: "time \<Rightarrow> pstate \<Rightarrow> string \<Rightarrow> error + pstate" where
  "parseSpec now st spec =
     (if \<not> isRepeat st \<and> MatchString datePattern spec then parseDate now spec st
      else if \<not> isRepeat st \<and> MatchString timePattern spec then parseTime spec st
      else if spec = ''every'' then Inr (st\<lparr>isRepeat := True\<rparr>)
      else if spec = ''hour'' \<and> isRepeat st then Inr (st\<lparr>isHourRepeat := True\<rparr>)
      else if spec = ''day'' \<and> isRepeat st then Inr (st\<lparr>isDayRepeat := True\<rparr>)
      else if isRepeat st \<and> MatchString dayOfWeekPattern spec then
        (case parseDayOfWeek spec st of
           Inl e \<Rightarrow> Inl e
         | Inr st' \<Rightarrow> Inr (st'\<lparr>isWeekRepeat := True\<rparr>))
      else if isWeekRepeat st \<and> MatchString timePattern spec then parseTime spec st
      else if isRepeat st \<and> MatchString dayOfMonthPattern spec then
        (case parseDayOfMonth spec st of
           Inl e \<Rightarrow> Inl e
         | Inr st' \<Rightarrow> Inr (st'\<lparr>isMonthRepeat := True\<rparr>))
      else if isMonthRepeat st \<and> MatchString timePattern spec then parseTime spec st
      else if isHourRepeat st \<and> MatchString minuteSecondPattern spec then
        parseMinuteSecond spec st
      else if isDayRepeat st \<and> MatchString timePattern spec then parseTime spec st
      else if MatchString durationPattern spec then parseDuration spec st
      else Inr st)"

text \<open>The loop over the tokens; the first error ends it.\<close>

fun parseSpecs :: "time \<Rightarrow> pstate \<Rightarrow> string list \<Rightarrow> error + pstate" where
  "parseSpecs now st [] = Inr st"
| "parseSpecs now st (spec # specs) =
     (case parseSpec now st spec of
        Inl e \<Rightarrow> Inl e
      | Inr st' \<Rightarrow> parseSpecs now st' specs)"

text \<open>The first loop of \<^verbatim>\<open>parsePlan\<close>: tokens up to the first one that starts with
  \<^verbatim>\<open>#\<close> are specs, that token without its \<^verbatim>\<open>#\<close> and all later ones the comment.\<close>

fun splitComment :: "string list \<Rightarrow> string list \<times> string list" where
  "splitComment [] = ([], [])"
| "splitComment (spec # rest) =
     (if HasPrefix spec ''#'' then ([], drop 1 spec # rest)
      else (case splitComment rest of (specs, comments) \<Rightarrow> (spec # specs, comments)))"


section \<open>Jobs, plans and the repeat projectors\<close>

record Plan =
  Time :: time
  Comment :: string
  State :: state

record Job =
  Cmd :: string
  Args :: "string list"
  Path :: string
  Plans :: "Plan list"
  Log :: "time list"

text \<open>\<^verbatim>\<open>hasLog\<close> and \<^verbatim>\<open>between\<close>: strictly inside the window, or equal to one of
  its two ends.  All instants are in \<^verbatim>\<open>time.Local\<close>, and \<^verbatim>\<open>==\<close> on two of them is
  read as equality of the instants: a reading of the clock carries nothing but its
  instant, as in the Go releases the program was written for (from Go 1.9 on it also
  carries a monotonic reading, and \<^verbatim>\<open>==\<close> with a value of \<^verbatim>\<open>time.Date\<close> is then
  false, which makes \<^verbatim>\<open>between\<close> strict on the clock).\<close>

fun logged :: "time list \<Rightarrow> time \<Rightarrow> time \<Rightarrow> bool" where
  "logged [] start stop = False"
| "logged (t # ts) start stop =
     (if start < t \<and> t < stop \<or> t = start \<or> t = stop then True else logged ts start stop)"

definition hasLog :: "Job \<Rightarrow> time \<Rightarrow> time \<Rightarrow> bool" where
  "hasLog self start stop = logged (Log self) start stop"

definition between :: "time \<Rightarrow> time \<Rightarrow> time \<Rightarrow> bool" where
  "between t start stop = (if start < t \<and> t < stop \<or> t = start \<or> t = stop then True else False)"

text \<open>The loop \<^verbatim>\<open>for t.Weekday() != dayOfWeek { t = t.Add(time.Hour * 24) }\<close>.  It ends
  within six rounds, since the weekday moves on by one with every day.\<close>

function untilWeekday :: "weekday \<Rightarrow> time \<Rightarrow> time" where
  "untilWeekday dow t = (if Weekday t \<noteq> dow then untilWeekday dow (t + 24 * Hour) else t)"
  by pat_completeness auto
termination
proof (relation "measure (\<lambda>(dow, t). nat ((weekdayIndex dow - (absDays t + 1)) mod 7))")
  show "wf (measure (\<lambda>(dow, t). nat ((weekdayIndex dow - (absDays t + 1)) mod 7)))"
    by simp
next
  fix dow :: weekday and t :: time
  assume ne: "Weekday t \<noteq> dow"
  have step: "absDays (t + 24 * Hour) = absDays t + 1"
    by (simp add: absDays_def Hour_def Minute_def Second_def)
  have idx: "weekdayOfIndex (weekdayIndex dow) = dow"
    by (cases dow) (simp_all add: weekdayOfIndex_def)
  have rng: "0 \<le> weekdayIndex dow \<and> weekdayIndex dow < 7"
    by (cases dow) simp_all
  have dec: "\<And>x::int. x mod 7 \<noteq> 0 \<Longrightarrow> (x - 1) mod 7 < x mod 7"
    by presburger
  have "(absDays t + 1) mod 7 \<noteq> weekdayIndex dow"
    using ne idx by (auto simp: Weekday_def)
  then have "(weekdayIndex dow - (absDays t + 1)) mod 7 \<noteq> 0"
    using rng by (metis mod_eq_0_iff_dvd mod_eq_dvd_iff mod_pos_pos_trivial)
  then have "(weekdayIndex dow - (absDays t + 1) - 1) mod 7
             < (weekdayIndex dow - (absDays t + 1)) mod 7"
    by (rule dec)
  moreover have "weekdayIndex dow - (absDays t + 1) - 1 = weekdayIndex dow - (absDays t + 1 + 1)"
    by simp
  ultimately have "(weekdayIndex dow - (absDays t + 1 + 1)) mod 7
             < (weekdayIndex dow - (absDays t + 1)) mod 7"
    by (simp only:)
  then show "((dow, t + 24 * Hour), (dow, t))
             \<in> measure (\<lambda>(dow, t). nat ((weekdayIndex dow - (absDays t + 1)) mod 7))"
    by (simp add: step)
qed

declare untilWeekday.simps [simp del]

text \<open>The loop \<^verbatim>\<open>for t.Day() != day { t = t.Add(time.Hour * 24) }\<close>.  Nothing bounds
  it: \<open>None\<close> is the loop that never ends.\<close>

partial_function (option) untilDay :: "int \<Rightarrow> time \<Rightarrow> time option" where
  "untilDay d t = (if Day t \<noteq> d then untilDay d (t + 24 * Hour) else Some t)"

declare untilDay.simps [code]

text \<open>The four projectors.  Each reads the clock and the run log of the job.  The calls
  of \<^verbatim>\<open>time.Now()\<close> within one call of \<^verbatim>\<open>parsePlan\<close> are taken to return the same
  instant \<open>now\<close>.\<close>

definition nextHourRepeat :: "Job \<Rightarrow> time \<Rightarrow> duration \<Rightarrow> int \<Rightarrow> int \<Rightarrow> time \<times> state" where
  "nextHourRepeat self now dur mi s =
     (let dur' = (if dur > Hour then Hour else dur);
          t = Date (Year now) (Month now) (Day now) (ClockHour now) mi s;
          tEnd = t + dur'
      in if between now t tEnd \<and> \<not> hasLog self t tEnd then (t, NOW)
         else if now > t then (t + Hour * 1, WAIT)
         else (t, WAIT))"

definition nextDayRepeat :: "Job \<Rightarrow> time \<Rightarrow> duration \<Rightarrow> int \<Rightarrow> int \<Rightarrow> int \<Rightarrow> time \<times> state" where
  "nextDayRepeat self now dur h mi s =
     (let dur' = (if dur > Hour * 24 then Hour * 24 else dur);
          t = Date (Year now) (Month now) (Day now) h mi s;
          tEnd = t + dur'
      in if between now t tEnd \<and> \<not> hasLog self t tEnd then (t, NOW)
         else if now > t then (t + Hour * 24, WAIT)
         else (t, WAIT))"

definition nextWeekRepeat ::
  "Job \<Rightarrow> time \<Rightarrow> duration \<Rightarrow> weekday \<Rightarrow> int \<Rightarrow> int \<Rightarrow> int \<Rightarrow> time \<times> state" where
  "nextWeekRepeat self now dur dow h mi s =
     (let dur' = (if dur > Hour * 24 * 7 then Hour * 24 * 7 else dur);
          t = untilWeekday dow (Date (Year now) (Month now) (Day now) h mi s);
          tEnd = t + dur'
      in if between now t tEnd \<and> \<not> hasLog self t tEnd then (t, NOW)
         else if now > t then (untilWeekday dow (t + 24 * Hour), WAIT)
         else (t, WAIT))"

definition nextMonthRepeat ::
  "Job \<Rightarrow> time \<Rightarrow> duration \<Rightarrow> int \<Rightarrow> int \<Rightarrow> int \<Rightarrow> int \<Rightarrow> (time \<times> state) option" where
  "nextMonthRepeat self now dur d h mi s =
     (let dur' = (if dur > Hour * 24 * 30 then Hour * 24 * 30 else dur) in
      case untilDay d (Date (Year now) (Month now) d h mi s) of
        None \<Rightarrow> None
      | Some t \<Rightarrow>
          let tEnd = t + dur' in
          if between now t tEnd \<and> \<not> hasLog self t tEnd then Some (t, NOW)
          else if now > t then
            (case untilDay d (t + 24 * Hour) of
               None \<Rightarrow> None
             | Some t' \<Rightarrow> Some (t', WAIT))
          else Some (t, WAIT))"

section \<open>The occurrence resolver and the job descriptor parser\<close>

text \<open>
  The end of \<^verbatim>\<open>parsePlan\<close>, after the token loop: the plan of the final values of the
  variables.  A line without \<^verbatim>\<open>every\<close> is classified here, by strict comparisons of
  the clock with the start and the end of its window; a repeating line goes to the
  projector of the first cadence flag that is set, in the order hour, day, week, month.
\<close>

definition resolvePlan :: "Job \<Rightarrow> time \<Rightarrow> string \<Rightarrow> pstate \<Rightarrow> (error + Plan) option" where
  "resolvePlan self now comment st =
     (if \<not> isRepeat st then
        (let start = Date (year st) (month st) (day st) (hour st) (minute st) (second st);
             stop = start + duration st
         in Some (Inr \<lparr>Time = start, Comment = comment,
                       State = (if now > start \<and> now < stop then NOW
                                else if now > stop then EXPIRED else WAIT)\<rparr>))
      else if isHourRepeat st then
        (case nextHourRepeat self now (duration st) (minute st) (second st) of
           (start, state) \<Rightarrow> Some (Inr \<lparr>Time = start, Comment = comment, State = state\<rparr>))
      else if isDayRepeat st then
        (case nextDayRepeat self now (duration st) (hour st) (minute st) (second st) of
           (start, state) \<Rightarrow> Some (Inr \<lparr>Time = start, Comment = comment, State = state\<rparr>))
      else if isWeekRepeat st then
        (case nextWeekRepeat self now (duration st) (dayOfWeek st) (hour st) (minute st)
                (second st) of
           (start, state) \<Rightarrow> Some (Inr \<lparr>Time = start, Comment = comment, State = state\<rparr>))
      else if isMonthRepeat st then
        (case nextMonthRepeat self now (duration st) (day st) (hour st) (minute st)
                (second st) of
           None \<Rightarrow> None
         | Some (start, state) \<Rightarrow>
             Some (Inr \<lparr>Time = start, Comment = comment, State = state\<rparr>))
      else Some (Inl ErrInvalidTimeSpec))"

text \<open>\<^verbatim>\<open>parsePlan\<close>: split off the comment, run the token loop from the zero values,
  resolve.  \<open>None\<close> is a call that never returns.\<close>

definition parsePlan :: "Job \<Rightarrow> time \<Rightarrow> string \<Rightarrow> (error + Plan) option" where
  "parsePlan self now input =
     (case splitComment (Split input CHR '' '') of
        (specs, comments) \<Rightarrow>
          (case parseSpecs now initial specs of
             Inl e \<Rightarrow> Some (Inl e)
           | Inr st \<Rightarrow> resolvePlan self now (Join comments '' '') st))"

text \<open>
  The lines \<^verbatim>\<open>Job.Parse\<close> keeps of a job file: trimmed, not empty, not starting with
  \<^verbatim>\<open>#\<close>.
\<close>

definition jobLines :: "string \<Rightarrow> string list" where
  "jobLines content =
     filter (\<lambda>line. line \<noteq> [] \<and> \<not> HasPrefix line ''#'')
       (map TrimSpace (Split content CHR 0x0A))"

datatype pmode = parsingPlan | parsingArgs

text \<open>The loop of \<^verbatim>\<open>Job.Parse\<close> over the kept lines, from line number \<open>i\<close> in mode
  \<open>mode\<close>; any error of a plan line ends it with the error "parse datetime".\<close>

fun parseLines :: "time \<Rightarrow> pmode \<Rightarrow> nat \<Rightarrow> Job \<Rightarrow> string list \<Rightarrow> (error + Job) option" where
  "parseLines now mode i self [] = Some (Inr self)"
| "parseLines now parsingPlan i self (line # rest) =
     (if i = 0 \<or> HasPrefix line ''and '' then
        (case parsePlan self now (TrimPrefix line ''and '') of
           None \<Rightarrow> None
         | Some (Inl e) \<Rightarrow> Some (Inl ErrParseDatetime)
         | Some (Inr p) \<Rightarrow>
             parseLines now parsingPlan (i + 1) (self\<lparr>Plans := Plans self @ [p]\<rparr>) rest)
      else parseLines now parsingArgs (i + 1) (self\<lparr>Cmd := line\<rparr>) rest)"
| "parseLines now parsingArgs i self (line # rest) =
     parseLines now parsingArgs (i + 1) (self\<lparr>Args := Args self @ [line]\<rparr>) rest"

text \<open>\<^verbatim>\<open>Job.Parse\<close> on a job whose run log is loaded and whose file holds \<open>content\<close>.\<close>

definition Parse :: "Job \<Rightarrow> time \<Rightarrow> string \<Rightarrow> (error + Job) option" where
  "Parse self now content = parseLines now parsingPlan 0 self (jobLines content)"


section \<open>The first revision\<close>

text \<open>
  \<^verbatim>\<open>src/sched.go\<close> is the first revision of the program: the first line of a job file is
  one schedule line, which \<^verbatim>\<open>parseDateTime\<close> resolves to an instant.  Its variables are
  among those of \<open>pstate\<close>, its date, time and minute patterns are the ones above, and so
  are its \<^verbatim>\<open>parseTime\<close> and \<^verbatim>\<open>parseMinuteSecond\<close>, word for word.  Its \<^verbatim>\<open>parseDate\<close> stores the
  three scanned numbers as they are.
\<close>

definition parseDate_sched :: "time \<Rightarrow> string \<Rightarrow> pstate \<Rightarrow> error + pstate" where
  "parseDate_sched now spec st =
     (let dashCount = Count spec CHR ''-'' in
      if dashCount = 2 then
        (case Sscanf spec [Verb_d, Lit CHR ''-'', Verb_d, Lit CHR ''-'', Verb_d] of
           (vs, err) \<Rightarrow>
             if length vs \<noteq> 3 \<or> err then Inl ErrParseDate
             else Inr (st\<lparr>year := vs ! 0, month := vs ! 1, day := vs ! 2\<rparr>))
      else if dashCount = 1 then
        (case Sscanf spec [Verb_d, Lit CHR ''-'', Verb_d] of
           (vs, err) \<Rightarrow>
             if length vs \<noteq> 3 \<or> err then Inl ErrParseDate
             else Inr (st\<lparr>month := vs ! 0, day := vs ! 1, year := Year now\<rparr>))
      else Inr st)"

text \<open>One round of the \<^verbatim>\<open>switch\<close> of \<^verbatim>\<open>parseDateTime\<close>, and the loop over the tokens.\<close>

definition parseSpec_sched :: "time \<Rightarrow> pstate \<Rightarrow> string \<Rightarrow> error + pstate" where
  "parseSpec_sched now st spec =
     (if \<not> isRepeat st \<and> MatchString datePattern spec then parseDate_sched now spec st
      else if \<not> isRepeat st \<and> MatchString timePattern spec then parseTime spec st
      else if spec = ''every'' then Inr (st\<lparr>isRepeat := True\<rparr>)
      else if spec = ''hour'' \<and> isRepeat st then Inr (st\<lparr>isHourRepeat := True\<rparr>)
      else if isHourRepeat st \<and> MatchString minuteSecondPattern spec then
        parseMinuteSecond spec st
      else Inr st)"

fun parseSpecs_sched :: "time \<Rightarrow> pstate \<Rightarrow> string list \<Rightarrow> error + pstate" where
  "parseSpecs_sched now st [] = Inr st"
| "parseSpecs_sched now st (spec # specs) =
     (case parseSpec_sched now st spec of
        Inl e \<Rightarrow> Inl e
      | Inr st' \<Rightarrow> parseSpecs_sched now st' specs)"

text \<open>\<^verbatim>\<open>nextHourRepeat\<close> of the first revision: this hour's occurrence, or the next
  hour's when that one is past.\<close>

definition nextHourRepeat_sched :: "time \<Rightarrow> int \<Rightarrow> int \<Rightarrow> time" where
  "nextHourRepeat_sched now mi s =
     (let t = Date (Year now) (Month now) (Day now) (ClockHour now) mi s
      in if t < now then t + Hour * 1 else t)"

text \<open>The end of \<^verbatim>\<open>parseDateTime\<close>, after the token loop.\<close>

definition resolveDateTime :: "time \<Rightarrow> pstate \<Rightarrow> error + time" where
  "resolveDateTime now st =
     (if isHourRepeat st then Inr (nextHourRepeat_sched now (minute st) (second st))
      else if \<not> isRepeat st then
        Inr (Date (year st) (month st) (day st) (hour st) (minute st) (second st))
      else Inl ErrInvalidTimeSpec)"

text \<open>\<^verbatim>\<open>parseDateTime\<close>: the line, still with its line end, is split at blanks and every
  token trimmed.\<close>

definition parseDateTime :: "time \<Rightarrow> string \<Rightarrow> error + time" where
  "parseDateTime now input =
     (case parseSpecs_sched now initial (map TrimSpace (Split input CHR '' '')) of
        Inl e \<Rightarrow> Inl e
      | Inr st \<Rightarrow> resolveDateTime now st)"


section \<open>Sample jobs\<close>

text \<open>A job as \<^verbatim>\<open>checkJobs\<close> creates it, with no plans and an empty run log, and the
  variables of a line \<^verbatim>\<open>every wed 09:00 ~1h\<close> after the token loop.\<close>

definition job0 :: Job where
  "job0 = \<lparr>Cmd = [], Args = [], Path = ''backup'', Plans = [], Log = []\<rparr>"

text \<open>The same job after one run at 09:30:00 on the first of January 2024.\<close>

definition jobLogged :: Job where
  "jobLogged = \<lparr>Cmd = ''backup'', Args = [], Path = ''backup'', Plans = [],
                Log = [Date 2024 1 1 9 30 0]\<rparr>"

definition weeklyState :: pstate where
  "weeklyState = initial\<lparr>isRepeat := True, isWeekRepeat := True, dayOfWeek := Wednesday,
                          hour := 9, duration := Hour\<rparr>"

section \<open>Calendar arithmetic\<close>

text \<open>
  The day count of an instant determines its year and day of the year: \<open>yearDay\<close>
  returns the one year whose days include the count.  From this, the day of the month
  always lies between 1 and 31, and \<^verbatim>\<open>time.Date\<close> of a real calendar date and clock
  time is an instant of the year given.
\<close>

lemma cycle_split:
  fixes r c :: int
  assumes c: "0 < c" and r0: "0 \<le> r" and r4: "r \<le> 4 * c"
  defines "n \<equiv> r div c - r div c div 4"
  shows "0 \<le> n \<and> n \<le> 3 \<and> 0 \<le> r - c * n \<and> r - c * n \<le> c
         \<and> (r - c * n = c \<longrightarrow> n = 3 \<and> r = 4 * c)"
proof -
  have q0: "0 \<le> r div c" using c r0 by (simp add: pos_imp_zdiv_nonneg_iff)
  have "r div c \<le> (4 * c) div c" using r4 c by (intro zdiv_mono1) simp_all
  then have q4: "r div c \<le> 4" using c by simp
  have m: "0 \<le> r mod c \<and> r mod c < c" using c by simp
  have e: "r = c * (r div c) + r mod c" by simp
  show ?thesis
  proof (cases "r div c = 4")
    case True
    have "r = c * 4 + r mod c" using e unfolding True .
    with m r4 have r: "r = 4 * c" by linarith
    have n: "n = 3" by (simp add: n_def True)
    show ?thesis unfolding n r using c by simp
  next
    case False
    with q4 have q3: "r div c \<le> 3" by simp
    with q0 have "r div c div 4 = 0" by simp
    then have n: "n = r div c" by (simp add: n_def)
    have d: "r - c * n = r mod c" unfolding n by (simp add: minus_mult_div_eq_mod)
    show ?thesis unfolding d using m q0 q3 by (simp add: n)
  qed
qed

lemma daysBeforeYear_decomp:
  assumes "0 \<le> n100" "n100 \<le> 3" "0 \<le> n4" "n4 \<le> 24" "0 \<le> n1" "n1 \<le> 3"
  shows "daysBeforeYear (400 * a + 100 * n100 + 4 * n4 + n1 + 1)
         = 146097 * a + 36524 * n100 + 1461 * n4 + 365 * n1"
proof -
  have d4: "(400 * a + 100 * n100 + 4 * n4 + n1) div 4 = 100 * a + 25 * n100 + n4"
    using assms by (intro int_div_pos_eq [where r = n1]) simp_all
  have d100: "(400 * a + 100 * n100 + 4 * n4 + n1) div 100 = 4 * a + n100"
    using assms by (intro int_div_pos_eq [where r = "4 * n4 + n1"]) simp_all
  have d400: "(400 * a + 100 * n100 + 4 * n4 + n1) div 400 = a"
    using assms by (intro int_div_pos_eq [where r = "100 * n100 + 4 * n4 + n1"]) simp_all
  show ?thesis
    by (simp add: daysBeforeYear_def d4 d100 d400)
qed


lemma yearDay_char:
  assumes yd: "yearDay z = (y, yd)"
  shows "z = daysBeforeYear y + yd \<and> 0 \<le> yd \<and> yd < 365 + (if isLeap y then 1 else 0)"
proof -
  define a where "a = z div 146097"
  define r where "r = z mod 146097"
  define n100 where "n100 = r div 36524 - r div 36524 div 4"
  define r1 where "r1 = r - 36524 * n100"
  define n4 where "n4 = r1 div 1461"
  define r2 where "r2 = r1 mod 1461"
  define n1 where "n1 = r2 div 365 - r2 div 365 div 4"
  have "(400 * a + 100 * n100 + 4 * n4 + n1 + 1, r2 - 365 * n1) = (y, yd)"
    using yd unfolding yearDay_def Let_def a_def r_def n100_def r1_def n4_def r2_def n1_def .
  then have y: "y = 400 * a + 100 * n100 + 4 * n4 + n1 + 1" and yd': "yd = r2 - 365 * n1"
    by (simp_all only: prod.inject)
  have z: "z = 146097 * a + r" by (simp add: a_def r_def)
  have r: "0 \<le> r" "r \<le> 4 * 36524" by (simp_all add: r_def) 
  have c1: "0 \<le> n100 \<and> n100 \<le> 3 \<and> 0 \<le> r1 \<and> r1 \<le> 36524
            \<and> (r1 = 36524 \<longrightarrow> n100 = 3 \<and> r = 4 * 36524)"
    unfolding r1_def n100_def by (rule cycle_split) (use r in simp_all)
  have r1: "r1 = 1461 * n4 + r2" "0 \<le> r2" "r2 \<le> 4 * 365"
    by (simp_all add: n4_def r2_def) 
  have n4: "0 \<le> n4" "n4 \<le> 24"
  proof -
    show "0 \<le> n4" using c1 by (simp add: n4_def pos_imp_zdiv_nonneg_iff)
    have "r1 div 1461 \<le> 36524 div 1461" using c1 by (intro zdiv_mono1) simp_all
    then show "n4 \<le> 24" by (simp add: n4_def)
  qed
  have c2: "0 \<le> n1 \<and> n1 \<le> 3 \<and> 0 \<le> yd \<and> yd \<le> 365
            \<and> (yd = 365 \<longrightarrow> n1 = 3 \<and> r2 = 4 * 365)"
    unfolding yd' n1_def by (rule cycle_split) (use r1 in simp_all)
  have dby: "daysBeforeYear y = 146097 * a + 36524 * n100 + 1461 * n4 + 365 * n1"
    unfolding y using c1 c2 n4 by (intro daysBeforeYear_decomp) simp_all
  have zz: "z = daysBeforeYear y + yd"
    unfolding dby yd' z using r1(1) by (simp add: r1_def)
  have leap: "isLeap y" if "yd = 365"
  proof -
    from that c2 have n1: "n1 = 3" and r2: "r2 = 1460" by simp_all
    have y4: "y = 4 * (100 * a + 25 * n100 + n4 + 1)" by (simp add: y n1)
    have m4: "y mod 4 = 0" unfolding y4 by simp
    show ?thesis
    proof (cases "n4 = 24")
      case True
      with r1(1) r2 have "r1 = 36524" by simp
      with c1 have "n100 = 3" by simp
      with True n1 have "y = 400 * (a + 1)" by (simp add: y)
      then have "y mod 400 = 0" by simp
      with m4 show ?thesis by (simp add: isLeap_def)
    next
      case False
      with n4 have "n4 \<le> 23" by simp
      have "y mod 100 = 4 * n4 + 4"
        using n4(1) \<open>n4 \<le> 23\<close>
        by (intro int_mod_pos_eq [where q = "4 * a + n100"]) (simp_all add: y n1)
      with n4(1) have "y mod 100 \<noteq> 0" by simp
      with m4 show ?thesis by (simp add: isLeap_def)
    qed
  qed
  have "yd < 365 + (if isLeap y then 1 else 0)"
    using c2 leap by (cases "yd = 365") auto
  with zz c2 show ?thesis by simp
qed


lemma div_step:
  fixes y n :: int
  assumes n: "0 < n"
  shows "y div n = (y - 1) div n + (if y mod n = 0 then 1 else 0)"
proof (cases "y mod n = 0")
  case True
  have "y = n * (y div n) + y mod n" by simp
  with True have "y - 1 = n * (y div n - 1) + (n - 1)" by (simp add: algebra_simps)
  then have "(y - 1) div n = y div n - 1"
    using n by (intro int_div_pos_eq [where r = "n - 1"]) simp_all
  with True show ?thesis by simp
next
  case False
  have m: "0 \<le> y mod n" "y mod n < n" using n by simp_all
  have "y - 1 = n * (y div n) + (y mod n - 1)" by simp
  then have "(y - 1) div n = y div n"
    using m False by (intro int_div_pos_eq [where r = "y mod n - 1"]) simp_all
  with False show ?thesis by simp
qed

lemma daysBeforeYear_Suc:
  "daysBeforeYear (y + 1) = daysBeforeYear y + 365 + (if isLeap y then 1 else 0)"
proof -
  have a: "y mod 4 = 0" if "y mod 100 = 0"
    using mod_mod_cancel [of 4 100 y] that by simp
  have b: "y mod 100 = 0" if "y mod 400 = 0"
    using mod_mod_cancel [of 100 400 y] that by simp
  have e4: "y div 4 = (y - 1) div 4 + (if y mod 4 = 0 then 1 else 0)"
    by (rule div_step) simp
  have e100: "y div 100 = (y - 1) div 100 + (if y mod 100 = 0 then 1 else 0)"
    by (rule div_step) simp
  have e400: "y div 400 = (y - 1) div 400 + (if y mod 400 = 0 then 1 else 0)"
    by (rule div_step) simp
  have d: "daysBeforeYear (y + 1) = 365 * y + y div 4 - y div 100 + y div 400"
    by (simp add: daysBeforeYear_def)
  show ?thesis
  proof (cases "y mod 4 = 0")
    case m4: True
    show ?thesis
    proof (cases "y mod 100 = 0")
      case m100: True
      show ?thesis
      proof (cases "y mod 400 = 0")
        case True
        with m4 m100 show ?thesis
          unfolding d e4 e100 e400 by (simp add: daysBeforeYear_def isLeap_def)
      next
        case False
        with m4 m100 show ?thesis
          unfolding d e4 e100 e400 by (simp add: daysBeforeYear_def isLeap_def)
      qed
    next
      case False
      with b have "y mod 400 \<noteq> 0" by auto
      with m4 False show ?thesis
        unfolding d e4 e100 e400 by (simp add: daysBeforeYear_def isLeap_def)
    qed
  next
    case False
    with a have n100: "y mod 100 \<noteq> 0" by auto
    with b have "y mod 400 \<noteq> 0" by auto
    with False n100 show ?thesis
      unfolding d e4 e100 e400 by (simp add: daysBeforeYear_def isLeap_def)
  qed
qed


lemma daysBeforeYear_mono: "a \<le> b \<Longrightarrow> daysBeforeYear a \<le> daysBeforeYear b"
proof (induction b rule: int_ge_induct)
  case base
  show ?case by simp
next
  case (step i)
  then show ?case by (simp add: daysBeforeYear_Suc)
qed

lemma yearDay_unique:
  assumes lo: "daysBeforeYear y \<le> z" and hi: "z < daysBeforeYear (y + 1)"
  shows "yearDay z = (y, z - daysBeforeYear y)"
proof -
  obtain y' yd where e: "yearDay z = (y', yd)" by (cases "yearDay z")
  from yearDay_char [OF e] have z: "z = daysBeforeYear y' + yd" and yd: "0 \<le> yd"
    and lt: "yd < 365 + (if isLeap y' then 1 else 0)" by simp_all
  from z yd have lo': "daysBeforeYear y' \<le> z" by simp
  from z lt have hi': "z < daysBeforeYear (y' + 1)" by (simp add: daysBeforeYear_Suc)
  have "y' = y"
  proof (rule ccontr)
    assume "y' \<noteq> y"
    then consider "y' + 1 \<le> y" | "y + 1 \<le> y'" by linarith
    then show False
    proof cases
      case 1
      from daysBeforeYear_mono [OF 1] hi' lo show False by simp
    next
      case 2
      from daysBeforeYear_mono [OF 2] hi lo' show False by simp
    qed
  qed
  with e z show ?thesis by simp
qed

lemma month_index_cases:
  "0 \<le> m \<Longrightarrow> m \<le> 11 \<Longrightarrow>
   m = 0 \<or> m = 1 \<or> m = 2 \<or> m = 3 \<or> m = 4 \<or> m = 5 \<or> m = 6 \<or> m = 7 \<or> m = 8 \<or> m = 9
   \<or> m = 10 \<or> m = (11::int)"
  by arith

lemma daysBefore_le: "0 \<le> m \<Longrightarrow> daysBefore m \<le> 31 * m"
proof (cases "12 \<le> m")
  case True
  then have "daysBefore m = 365" by (simp add: daysBefore_def)
  with True show ?thesis by simp
next
  case False
  assume "0 \<le> m"
  with False have "m = 0 \<or> m = 1 \<or> m = 2 \<or> m = 3 \<or> m = 4 \<or> m = 5 \<or> m = 6 \<or> m = 7
      \<or> m = 8 \<or> m = 9 \<or> m = 10 \<or> m = 11"
    by (intro month_index_cases) simp_all
  then show ?thesis
    by (elim disjE) (simp_all add: daysBefore_def)
qed

lemma daysBefore_next: "0 \<le> m \<Longrightarrow> m \<le> 11 \<Longrightarrow>
  31 * m \<le> daysBefore (m + 1) \<and> daysBefore (m + 1) - daysBefore m \<le> 31
  \<and> 28 \<le> daysBefore (m + 1) - daysBefore m"
proof -
  assume "0 \<le> m" "m \<le> 11"
  then have "m = 0 \<or> m = 1 \<or> m = 2 \<or> m = 3 \<or> m = 4 \<or> m = 5 \<or> m = 6 \<or> m = 7
      \<or> m = 8 \<or> m = 9 \<or> m = 10 \<or> m = 11"
    by (rule month_index_cases)
  then show ?thesis
    by (elim disjE) (simp_all add: daysBefore_def)
qed

lemma monthDay_day_ge: "0 \<le> yd \<Longrightarrow> 1 \<le> snd (monthDay y yd)"
proof -
  assume yd: "0 \<le> yd"
  define dd where "dd = (if isLeap y \<and> yd > 31 + 29 - 1 then yd - 1 else yd)"
  have dd: "0 \<le> dd" using yd by (simp add: dd_def)
  then have m: "0 \<le> dd div 31" by (simp add: pos_imp_zdiv_nonneg_iff)
  have "0 \<le> dd mod 31" by simp
  then have "31 * (dd div 31) \<le> dd"
    using mult_div_mod_eq [of 31 dd] by linarith
  with daysBefore_le [OF m] have "daysBefore (dd div 31) \<le> dd" by linarith
  then show ?thesis
    unfolding monthDay_def Let_def dd_def [symmetric] by simp
qed

lemma monthDay_day_le:
  assumes yd: "0 \<le> yd" and lt: "yd < 365 + (if isLeap y then 1 else 0)"
  shows "snd (monthDay y yd) \<le> 31"
proof -
  define dd where "dd = (if isLeap y \<and> yd > 31 + 29 - 1 then yd - 1 else yd)"
  have dd: "0 \<le> dd" "dd \<le> 364" using yd lt by (auto simp: dd_def split: if_splits)
  then have m0: "0 \<le> dd div 31" by (simp add: pos_imp_zdiv_nonneg_iff)
  have "dd div 31 \<le> 364 div 31" using dd by (intro zdiv_mono1) simp_all
  then have m11: "dd div 31 \<le> 11" by simp
  have "0 \<le> dd mod 31" by simp
  then have lo: "31 * (dd div 31) \<le> dd"
    using mult_div_mod_eq [of 31 dd] by linarith
  have "dd mod 31 < 31" by simp
  then have hi: "dd \<le> 31 * (dd div 31) + 30"
    using mult_div_mod_eq [of 31 dd] by linarith
  from daysBefore_next [OF m0 m11] lo hi show ?thesis
    unfolding monthDay_def Let_def dd_def [symmetric] by auto
qed

lemma Day_range: "1 \<le> Day t \<and> Day t \<le> 31"
proof -
  obtain y yd where e: "yearDay (absDays t) = (y, yd)" by (cases "yearDay (absDays t)")
  from yearDay_char [OF e] have r: "0 \<le> yd" "yd < 365 + (if isLeap y then 1 else 0)"
    by simp_all
  have "Day t = snd (monthDay y yd)" by (simp add: Day_def e)
  with monthDay_day_ge [OF r(1), of y] monthDay_day_le [OF r] show ?thesis by simp
qed


lemma absDays_Date:
  assumes "0 \<le> h * 3600 + mi * 60 + s" and "h * 3600 + mi * 60 + s < 86400"
  shows "absDays (Date y mo d h mi s)
         = daysBeforeYear (y + (mo - 1) div 12) + daysBefore ((mo - 1) mod 12)
           + (if isLeap (y + (mo - 1) div 12) \<and> 2 \<le> (mo - 1) mod 12 then 1 else 0) + (d - 1)"
proof -
  define days where "days = daysBeforeYear (y + (mo - 1) div 12) + daysBefore ((mo - 1) mod 12)
           + (if isLeap (y + (mo - 1) div 12) \<and> 2 \<le> (mo - 1) mod 12 then 1 else 0) + (d - 1)"
  define secs where "secs = h * 3600 + mi * 60 + s"
  have D: "Date y mo d h mi s = 86400000000000 * days + secs * 1000000000"
    by (simp add: Date_def Let_def days_def secs_def Second_def algebra_simps)
  have "(86400000000000 * days + secs * 1000000000) div 86400000000000 = days"
    using assms by (intro int_div_pos_eq [where r = "secs * 1000000000"]) (simp_all add: secs_def)
  then show ?thesis
    unfolding days_def [symmetric] by (simp add: absDays_def D Hour_def Minute_def Second_def)
qed

lemma validClock_secs:
  "validClock h mi s \<Longrightarrow> 0 \<le> h * 3600 + mi * 60 + s \<and> h * 3600 + mi * 60 + s < 86400"
  by (simp add: validClock_def)

lemma Year_Date:
  assumes d: "validDate y mo d" and c: "validClock h mi s"
  shows "Year (Date y mo d h mi s) = y"
proof -
  from d have mo: "1 \<le> mo" "mo \<le> 12" and dd: "1 \<le> d" "d \<le> daysIn mo y"
    by (simp_all add: validDate_def)
  from mo have n: "(mo - 1) div 12 = 0" "(mo - 1) mod 12 = mo - 1" by simp_all
  define k where "k = daysBefore (mo - 1) + (if isLeap y \<and> 2 \<le> mo - 1 then 1 else 0) + (d - 1)"
  have z: "absDays (Date y mo d h mi s) = daysBeforeYear y + k"
    using absDays_Date [OF validClock_secs [OF c, THEN conjunct1]
        validClock_secs [OF c, THEN conjunct2], of y mo d]
    by (simp add: n k_def)
  from mo have "mo - 1 = 0 \<or> mo - 1 = 1 \<or> mo - 1 = 2 \<or> mo - 1 = 3 \<or> mo - 1 = 4 \<or> mo - 1 = 5
      \<or> mo - 1 = 6 \<or> mo - 1 = 7 \<or> mo - 1 = 8 \<or> mo - 1 = 9 \<or> mo - 1 = 10 \<or> mo - 1 = 11"
    by (intro month_index_cases) simp_all
  then have k: "0 \<le> k \<and> k < 365 + (if isLeap y then 1 else 0)"
    using dd by (elim disjE) (auto simp: k_def daysIn_def daysBefore_def split: if_splits)
  have "yearDay (daysBeforeYear y + k) = (y, daysBeforeYear y + k - daysBeforeYear y)"
    using k by (intro yearDay_unique) (simp_all add: daysBeforeYear_Suc)
  then show ?thesis by (simp add: Year_def z)
qed

section \<open>The token loop and the resolver\<close>

lemma parseSpecs_append:
  "parseSpecs now st (xs @ ys) =
     (case parseSpecs now st xs of Inl e \<Rightarrow> Inl e | Inr st' \<Rightarrow> parseSpecs now st' ys)"
  by (induction xs arbitrary: st) (auto split: sum.splits)

lemma parsePlan_resolve:
  "parseSpecs now initial (fst (splitComment (Split input CHR '' ''))) = Inr st \<Longrightarrow>
   parsePlan self now input
     = resolvePlan self now (Join (snd (splitComment (Split input CHR '' ''))) '' '') st"
  by (cases "splitComment (Split input CHR '' '')") (simp add: parsePlan_def)

lemma resolvePlan_error:
  "resolvePlan self now c st = Some (Inl e) \<longleftrightarrow>
     e = ErrInvalidTimeSpec \<and> isRepeat st \<and> \<not> isHourRepeat st \<and> \<not> isDayRepeat st
     \<and> \<not> isWeekRepeat st \<and> \<not> isMonthRepeat st"
  by (cases "isRepeat st"; cases "isHourRepeat st"; cases "isDayRepeat st";
      cases "isWeekRepeat st"; cases "isMonthRepeat st")
     (auto simp: resolvePlan_def Let_def split: prod.splits option.splits)

lemma resolvePlan_single:
  "\<not> isRepeat st \<Longrightarrow> \<exists>p. resolvePlan self now c st = Some (Inr p)
     \<and> Time p = Date (year st) (month st) (day st) (hour st) (minute st) (second st)"
  by (simp add: resolvePlan_def Let_def)

subsection \<open>Classification of a line without repeat\<close>

text \<open>What the resolver computes for a line without \<^verbatim>\<open>every\<close>: the state is \<open>NOW\<close>
  strictly inside the window, \<open>EXPIRED\<close> strictly after it, and \<open>WAIT\<close> before it and at
  both of its ends.\<close>

lemma single_plan_state:
  assumes "\<not> isRepeat st" and "resolvePlan self now c st = Some (Inr p)"
  shows "Time p = Date (year st) (month st) (day st) (hour st) (minute st) (second st)
    \<and> (State p = NOW \<longleftrightarrow> Time p < now \<and> now < Time p + duration st)
    \<and> (State p = EXPIRED \<longleftrightarrow> Time p + duration st < now
           \<and> \<not> (Time p < now \<and> now < Time p + duration st))
    \<and> (State p = WAIT \<longleftrightarrow> now \<le> Time p + duration st
           \<and> \<not> (Time p < now \<and> now < Time p + duration st))"
proof -
  let ?start = "Date (year st) (month st) (day st) (hour st) (minute st) (second st)"
  from assms have p: "p = \<lparr>Time = ?start, Comment = c,
      State = (if now > ?start \<and> now < ?start + duration st then NOW
               else if now > ?start + duration st then EXPIRED else WAIT)\<rparr>"
    by (simp add: resolvePlan_def Let_def)
  have t: "Time p = ?start" by (subst p) simp
  have s: "State p = (if now > ?start \<and> now < ?start + duration st then NOW
               else if now > ?start + duration st then EXPIRED else WAIT)"
    by (subst p) simp
  show ?thesis unfolding t s by auto
qed

text \<open>
  Claim C1 asks for \<open>NOW\<close> at both ends of the window of a line without repeat.  The
  line \<^verbatim>\<open>2024-01-01 08:00 ~2h\<close> has the window from 08:00:00 to 10:00:00 of that day;
  read at exactly 08:00:00 and at exactly 10:00:00 its plan is in state \<open>WAIT\<close>, since the
  resolver compares with \<^verbatim>\<open>After\<close> and \<^verbatim>\<open>Before\<close> only, where the projectors of
  repeating lines go through \<^verbatim>\<open>between\<close>, which accepts both ends.
\<close>

theorem single_plan_boundaries_wait:
  "parsePlan job0 (Date 2024 1 1 8 0 0) ''2024-01-01 08:00 ~2h''
     = Some (Inr \<lparr>Time = Date 2024 1 1 8 0 0, Comment = [], State = WAIT\<rparr>)
   \<and> parsePlan job0 (Date 2024 1 1 10 0 0) ''2024-01-01 08:00 ~2h''
     = Some (Inr \<lparr>Time = Date 2024 1 1 8 0 0, Comment = [], State = WAIT\<rparr>)
   \<and> Date 2024 1 1 8 0 0 + 2 * Hour = Date 2024 1 1 10 0 0"
  by code_simp

subsection \<open>Lines that resolve to no cadence\<close>

text \<open>
  Counterexample to claim C5 as stated: the line \<^verbatim>\<open>08:00\<close> has no \<^verbatim>\<open>every\<close> and no
  date token, and the resolver returns a plan for it, built from the zero values of year,
  month and day (the 30th of November of the year before year 0), not an error.
\<close>

theorem zero_date_plan_counterexample:
  "parsePlan job0 (Date 2024 1 1 11 0 0) ''08:00''
     = Some (Inr \<lparr>Time = Date 0 0 0 8 0 0, Comment = [], State = EXPIRED\<rparr>)"
  by code_simp

text \<open>
  Claim C5, amended: for a line whose tokens all parse, the resolver returns the error
  "invalid time spec" exactly when \<^verbatim>\<open>every\<close> was seen and none of the four cadences
  became active; a line without \<^verbatim>\<open>every\<close> always yields a plan, at the instant that
  \<^verbatim>\<open>time.Date\<close> makes of the date and time fields as they stand, zero where no token
  set them.
\<close>

theorem invalid_time_spec_iff:
  assumes "parseSpecs now initial (fst (splitComment (Split input CHR '' ''))) = Inr st"
  shows "(parsePlan self now input = Some (Inl ErrInvalidTimeSpec)
          \<longleftrightarrow> isRepeat st \<and> \<not> isHourRepeat st \<and> \<not> isDayRepeat st \<and> \<not> isWeekRepeat st
              \<and> \<not> isMonthRepeat st)
         \<and> (\<not> isRepeat st \<longrightarrow>
              (\<exists>p. parsePlan self now input = Some (Inr p)
                 \<and> Time p = Date (year st) (month st) (day st) (hour st) (minute st) (second st)))"
  unfolding parsePlan_resolve [OF assms]
  using resolvePlan_error [of self now _ st ErrInvalidTimeSpec] resolvePlan_single [of st self now]
  by simp

theorem invalid_time_spec_iff_witness:
  "parseSpecs (Date 2024 1 1 11 0 0) initial (fst (splitComment (Split ''every ~2h'' CHR '' '')))
     = Inr (initial\<lparr>isRepeat := True, duration := 2 * Hour\<rparr>)
   \<and> parsePlan job0 (Date 2024 1 1 11 0 0) ''every ~2h'' = Some (Inl ErrInvalidTimeSpec)
   \<and> parseSpecs (Date 2024 1 1 11 0 0) initial (fst (splitComment (Split ''08:00'' CHR '' '')))
     = Inr (initial\<lparr>hour := 8\<rparr>)
   \<and> (\<exists>p. parsePlan job0 (Date 2024 1 1 11 0 0) ''08:00'' = Some (Inr p)
          \<and> Time p = Date 0 0 0 8 0 0)"
proof -
  have a: "parseSpecs (Date 2024 1 1 11 0 0) initial
             (fst (splitComment (Split ''every ~2h'' CHR '' '')))
           = Inr (initial\<lparr>isRepeat := True, duration := 2 * Hour\<rparr>)"
    by code_simp
  have b: "parseSpecs (Date 2024 1 1 11 0 0) initial
             (fst (splitComment (Split ''08:00'' CHR '' '')))
           = Inr (initial\<lparr>hour := 8\<rparr>)"
    by code_simp
  have c: "parsePlan job0 (Date 2024 1 1 11 0 0) ''every ~2h'' = Some (Inl ErrInvalidTimeSpec)"
    using invalid_time_spec_iff [OF a, of job0] by (simp add: initial_def)
  have d: "\<exists>p. parsePlan job0 (Date 2024 1 1 11 0 0) ''08:00'' = Some (Inr p)
          \<and> Time p = Date 0 0 0 8 0 0"
    using invalid_time_spec_iff [OF b, of job0] by (simp add: initial_def)
  from a b c d show ?thesis by (intro conjI)
qed

subsection \<open>Lines with several cadences\<close>

text \<open>
  Counterexample to claim C6 as stated: in \<^verbatim>\<open>every hour day 30\<close> both \<^verbatim>\<open>hour\<close> and
  \<^verbatim>\<open>day\<close> follow \<^verbatim>\<open>every\<close>, and the line is no parse error: read at 11:20:00 it
  yields the plan of the hourly projector, waiting for 11:30:00.
\<close>

theorem conflicting_cadences_counterexample:
  "parsePlan job0 (Date 2024 1 1 11 20 0) ''every hour day 30''
     = Some (Inr \<lparr>Time = Date 2024 1 1 11 30 0, Comment = [], State = WAIT\<rparr>)"
  by code_simp

text \<open>
  Claim C6, amended: a repeating line whose tokens all parse is resolved by exactly one
  branch, chosen by precedence among the cadence flags that are set: the hourly projector
  if \<^verbatim>\<open>hour\<close> was seen, else the daily one if \<^verbatim>\<open>day\<close> was seen, else the weekly one
  if a weekday was seen, else the monthly one if a day of the month was seen; several
  active cadences are not an error, and only a line with no active cadence is rejected,
  with "invalid time spec".
\<close>

theorem cadence_precedence:
  assumes "parseSpecs now initial (fst (splitComment (Split input CHR '' ''))) = Inr st"
    and "isRepeat st"
  shows
    "(isHourRepeat st \<longrightarrow>
        parsePlan self now input
          = Some (Inr \<lparr>Time = fst (nextHourRepeat self now (duration st) (minute st) (second st)),
                       Comment = Join (snd (splitComment (Split input CHR '' ''))) '' '',
                       State = snd (nextHourRepeat self now (duration st) (minute st)
                                      (second st))\<rparr>))
     \<and> (\<not> isHourRepeat st \<and> isDayRepeat st \<longrightarrow>
        parsePlan self now input
          = Some (Inr \<lparr>Time = fst (nextDayRepeat self now (duration st) (hour st) (minute st)
                                      (second st)),
                       Comment = Join (snd (splitComment (Split input CHR '' ''))) '' '',
                       State = snd (nextDayRepeat self now (duration st) (hour st) (minute st)
                                      (second st))\<rparr>))
     \<and> (\<not> isHourRepeat st \<and> \<not> isDayRepeat st \<and> isWeekRepeat st \<longrightarrow>
        parsePlan self now input
          = Some (Inr \<lparr>Time = fst (nextWeekRepeat self now (duration st) (dayOfWeek st) (hour st)
                                      (minute st) (second st)),
                       Comment = Join (snd (splitComment (Split input CHR '' ''))) '' '',
                       State = snd (nextWeekRepeat self now (duration st) (dayOfWeek st) (hour st)
                                      (minute st) (second st))\<rparr>))
     \<and> (\<not> isHourRepeat st \<and> \<not> isDayRepeat st \<and> \<not> isWeekRepeat st \<and> isMonthRepeat st \<longrightarrow>
        parsePlan self now input
          = map_option
              (\<lambda>r. Inr \<lparr>Time = fst r,
                         Comment = Join (snd (splitComment (Split input CHR '' ''))) '' '',
                         State = snd r\<rparr>)
              (nextMonthRepeat self now (duration st) (day st) (hour st) (minute st) (second st)))
     \<and> (\<not> isHourRepeat st \<and> \<not> isDayRepeat st \<and> \<not> isWeekRepeat st \<and> \<not> isMonthRepeat st \<longrightarrow>
        parsePlan self now input = Some (Inl ErrInvalidTimeSpec))"
  unfolding parsePlan_resolve [OF assms(1)] using assms(2)
  by (auto simp: resolvePlan_def split: prod.splits option.splits)

theorem cadence_precedence_witness:
  "parseSpecs (Date 2024 1 1 11 20 0) initial
       (fst (splitComment (Split ''every hour day 30'' CHR '' '')))
     = Inr (initial\<lparr>isRepeat := True, isHourRepeat := True, isDayRepeat := True, minute := 30\<rparr>)
   \<and> parsePlan job0 (Date 2024 1 1 11 20 0) ''every hour day 30''
     = Some (Inr \<lparr>Time = fst (nextHourRepeat job0 (Date 2024 1 1 11 20 0) 0 30 0),
                  Comment = [],
                  State = snd (nextHourRepeat job0 (Date 2024 1 1 11 20 0) 0 30 0)\<rparr>)"
proof -
  have a: "parseSpecs (Date 2024 1 1 11 20 0) initial
       (fst (splitComment (Split ''every hour day 30'' CHR '' '')))
     = Inr (initial\<lparr>isRepeat := True, isHourRepeat := True, isDayRepeat := True, minute := 30\<rparr>)"
    by code_simp
  have b: "isRepeat (initial\<lparr>isRepeat := True, isHourRepeat := True, isDayRepeat := True,
                              minute := 30\<rparr>)"
    by simp
  have c: "Join (snd (splitComment (Split ''every hour day 30'' CHR '' ''))) '' '' = []"
    by code_simp
  have d: "parsePlan job0 (Date 2024 1 1 11 20 0) ''every hour day 30''
     = Some (Inr \<lparr>Time = fst (nextHourRepeat job0 (Date 2024 1 1 11 20 0) 0 30 0),
                  Comment = [],
                  State = snd (nextHourRepeat job0 (Date 2024 1 1 11 20 0) 0 30 0)\<rparr>)"
    using cadence_precedence [OF a b, of job0, THEN conjunct1] unfolding c
    by (simp add: initial_def)
  from a d show ?thesis by (intro conjI)
qed

subsection \<open>Month-day dates\<close>

lemma Sscanf_two_verbs: "length (fst (Sscanf s [Verb_d, Lit c, Verb_d])) \<le> 2"
  by (auto split: option.splits list.splits prod.splits)

lemma parseDate_one_dash: "Count spec CHR ''-'' = 1 \<Longrightarrow> parseDate now spec st = Inl ErrParseDate"
  using Sscanf_two_verbs [of spec "CHR ''-''"]
  by (auto simp: parseDate_def split: prod.splits)

text \<open>
  Claim C7 promises a plan in the current year for a date token of month and day only.
  In \<^verbatim>\<open>parseDate\<close> the branch for one dash scans two numbers and then requires the count
  of scanned numbers to be 3, as the branch for two dashes does, so it fails on every
  token: a line without repeat that holds such a date token is rejected with the error
  "parse date", whatever precedes and follows the token.
\<close>

theorem month_day_date_rejected:
  assumes "parseSpecs now initial pre = Inr st" and "\<not> isRepeat st"
    and "MatchString datePattern spec" and "Count spec CHR ''-'' = 1"
  shows "parseSpecs now initial (pre @ spec # post) = Inl ErrParseDate"
  using assms by (simp add: parseSpecs_append parseSpec_def parseDate_one_dash)

theorem month_day_date_rejected_witness:
  "parseSpecs (Date 2024 5 1 12 0 0) initial [] = Inr initial \<and> \<not> isRepeat initial
   \<and> MatchString datePattern ''06-01'' \<and> Count ''06-01'' CHR ''-'' = 1
   \<and> parseSpecs (Date 2024 5 1 12 0 0) initial [''06-01'', ''08:00''] = Inl ErrParseDate
   \<and> parsePlan job0 (Date 2024 5 1 12 0 0) ''06-01 08:00'' = Some (Inl ErrParseDate)"
proof -
  have a: "parseSpecs (Date 2024 5 1 12 0 0) initial [] = Inr initial" by simp
  have b: "\<not> isRepeat initial" by code_simp
  have c: "MatchString datePattern ''06-01''" by code_simp
  have d: "Count ''06-01'' CHR ''-'' = 1" by code_simp
  have e: "parseSpecs (Date 2024 5 1 12 0 0) initial [''06-01'', ''08:00''] = Inl ErrParseDate"
    using month_day_date_rejected [OF a b c d, of "[''08:00'']"] by simp
  have f: "splitComment (Split ''06-01 08:00'' CHR '' '') = ([''06-01'', ''08:00''], [])"
    by code_simp
  have g: "parsePlan job0 (Date 2024 5 1 12 0 0) ''06-01 08:00'' = Some (Inl ErrParseDate)"
    unfolding parsePlan_def f by (simp only: e prod.case sum.case)
  from a b c d e g show ?thesis by (intro conjI)
qed

subsection \<open>Two-digit years\<close>

text \<open>What a token changes: the date fields change only in \<^verbatim>\<open>parseDate\<close> and, on a
  repeating line, \<^verbatim>\<open>parseDayOfMonth\<close>; and once \<^verbatim>\<open>every\<close> was seen the line stays a
  repeating one.\<close>

lemma parseDate_isRepeat: "parseDate now spec st = Inr st' \<Longrightarrow> isRepeat st' = isRepeat st"
  by (auto simp: parseDate_def Let_def simp del: Sscanf.simps split: prod.splits if_splits)

lemma parseTime_keeps:
  "parseTime spec st = Inr st' \<Longrightarrow>
     isRepeat st' = isRepeat st \<and> year st' = year st \<and> month st' = month st \<and> day st' = day st"
  by (auto simp: parseTime_def Let_def simp del: Sscanf.simps split: prod.splits if_splits)

lemma parseMinuteSecond_keeps:
  "parseMinuteSecond spec st = Inr st' \<Longrightarrow>
     isRepeat st' = isRepeat st \<and> year st' = year st \<and> month st' = month st \<and> day st' = day st"
  by (auto simp: parseMinuteSecond_def simp del: Sscanf.simps split: prod.splits if_splits)

lemma parseDuration_keeps:
  "parseDuration spec st = Inr st' \<Longrightarrow>
     isRepeat st' = isRepeat st \<and> year st' = year st \<and> month st' = month st \<and> day st' = day st"
proof -
  assume a: "parseDuration spec st = Inr st'"
  show ?thesis
  proof (cases "Atoi (takeWhile isDigit (drop 1 spec))")
    case None
    from a show ?thesis unfolding parseDuration_def Let_def None by simp
  next
    case (Some n)
    show ?thesis
    proof (cases "dropWhile isDigit (drop 1 spec)")
      case Nil
      from a show ?thesis unfolding parseDuration_def Let_def Some Nil by simp
    next
      case (Cons u us)
      have e: "parseDuration spec st =
                 (if u = CHR ''h'' \<or> u = CHR ''H'' then Inr (st\<lparr>duration := wrap64 (Hour * n)\<rparr>)
                  else if u = CHR ''m'' \<or> u = CHR ''M'' then
                    Inr (st\<lparr>duration := wrap64 (Minute * n)\<rparr>)
                  else if u = CHR ''s'' \<or> u = CHR ''S'' then
                    Inr (st\<lparr>duration := wrap64 (Second * n)\<rparr>)
                  else Inr st)"
        unfolding parseDuration_def Let_def Some Cons by (simp only: option.case list.case)
      show ?thesis
      proof (cases "u = CHR ''h'' \<or> u = CHR ''H''")
        case True
        with a e have "st' = st\<lparr>duration := wrap64 (Hour * n)\<rparr>" by simp
        then show ?thesis by simp
      next
        case h: False
        show ?thesis
        proof (cases "u = CHR ''m'' \<or> u = CHR ''M''")
          case True
          with a e h have "st' = st\<lparr>duration := wrap64 (Minute * n)\<rparr>" by simp
          then show ?thesis by simp
        next
          case m: False
          show ?thesis
          proof (cases "u = CHR ''s'' \<or> u = CHR ''S''")
            case True
            with a e h m have "st' = st\<lparr>duration := wrap64 (Second * n)\<rparr>" by simp
            then show ?thesis by simp
          next
            case False
            with a e h m have "st' = st" by simp
            then show ?thesis by simp
          qed
        qed
      qed
    qed
  qed
qed

lemma parseDayOfWeek_isRepeat:
  "parseDayOfWeek spec st = Inr st' \<Longrightarrow> isRepeat st' = isRepeat st"
  by (auto simp: parseDayOfWeek_def Let_def split: if_splits)

lemma parseDayOfMonth_isRepeat:
  "parseDayOfMonth spec st = Inr st' \<Longrightarrow> isRepeat st' = isRepeat st"
  by (auto simp: parseDayOfMonth_def Let_def split: if_splits option.splits)

lemma parseSpec_isRepeat:
  assumes "parseSpec now st spec = Inr st'" and "isRepeat st"
  shows "isRepeat st'"
  using assms
  by (auto simp: parseSpec_def split: if_splits sum.splits
      dest!: parseDate_isRepeat parseTime_keeps parseMinuteSecond_keeps parseDuration_keeps
        parseDayOfWeek_isRepeat parseDayOfMonth_isRepeat)

lemma parseSpecs_isRepeat:
  "parseSpecs now st specs = Inr st' \<Longrightarrow> isRepeat st \<Longrightarrow> isRepeat st'"
proof (induction specs arbitrary: st)
  case Nil
  then show ?case by simp
next
  case (Cons spec specs)
  then show ?case
    by (auto split: sum.splits dest: parseSpec_isRepeat)
qed

lemma parseSpec_keeps_date:
  assumes "parseSpec now st spec = Inr st'" and "\<not> isRepeat st"
    and "\<not> MatchString datePattern spec"
  shows "year st' = year st \<and> month st' = month st \<and> day st' = day st"
  using assms
  by (auto simp: parseSpec_def split: if_splits sum.splits
      dest!: parseTime_keeps parseMinuteSecond_keeps parseDuration_keeps)

lemma parseSpecs_keeps_date:
  "parseSpecs now st specs = Inr st' \<Longrightarrow> \<not> isRepeat st' \<Longrightarrow>
   \<forall>spec \<in> set specs. \<not> MatchString datePattern spec \<Longrightarrow>
   year st' = year st \<and> month st' = month st \<and> day st' = day st"
proof (induction specs arbitrary: st)
  case Nil
  then show ?case by simp
next
  case (Cons spec specs)
  from Cons.prems(1) obtain st1 where s1: "parseSpec now st spec = Inr st1"
    and s2: "parseSpecs now st1 specs = Inr st'"
    by (auto split: sum.splits)
  have n1: "\<not> isRepeat st1" using parseSpecs_isRepeat [OF s2] Cons.prems(2) by blast
  have n0: "\<not> isRepeat st" using parseSpec_isRepeat [OF s1] n1 by blast
  from Cons.prems(3) have m: "\<not> MatchString datePattern spec"
    and ms: "\<forall>spec \<in> set specs. \<not> MatchString datePattern spec" by simp_all
  from parseSpec_keeps_date [OF s1 n0 m] Cons.IH [OF s2 Cons.prems(2) ms]
  show ?case by simp
qed


lemma parseDate_three_fields:
  assumes "Count tok CHR ''-'' = 2"
    and "Sscanf tok [Verb_d, Lit CHR ''-'', Verb_d, Lit CHR ''-'', Verb_d] = ([p, mo, da], False)"
  shows "parseDate now tok st
         = Inr (st\<lparr>year := (if p < 1000 then p + 2000 else p), month := mo, day := da\<rparr>)"
  unfolding parseDate_def Let_def assms by simp

text \<open>The latest revision: on a line without repeat whose last date token has three
  fields with a parsed year \<open>p\<close> below 1000, the plan starts at
  \<^verbatim>\<open>time.Date(p + 2000, ...)\<close> with the month and day of that token, which is in the year
  \<open>p + 2000\<close> when month and day are a date of the calendar and the time of day is a time
  of the clock.\<close>

lemma parsePlan_two_digit_year:
  assumes run: "parseSpecs now initial (pre @ tok # post) = Inr st"
    and single: "\<not> isRepeat st"
    and tokd: "MatchString datePattern tok"
    and dashes: "Count tok CHR ''-'' = 2"
    and scan: "Sscanf tok [Verb_d, Lit CHR ''-'', Verb_d, Lit CHR ''-'', Verb_d]
               = ([p, mo, da], False)"
    and small: "p < 1000"
    and final: "\<forall>spec \<in> set post. \<not> MatchString datePattern spec"
    and plan: "resolvePlan self now c st = Some (Inr plan)"
  shows "year st = p + 2000
     \<and> Time plan = Date (p + 2000) mo da (hour st) (minute st) (second st)
     \<and> (validDate (p + 2000) mo da \<and> validClock (hour st) (minute st) (second st)
          \<longrightarrow> Year (Time plan) = p + 2000)"
proof -
  from run obtain st1 where r1: "parseSpecs now initial pre = Inr st1"
    and r2: "parseSpecs now st1 (tok # post) = Inr st"
    by (auto simp: parseSpecs_append split: sum.splits)
  from r2 obtain st2 where r3: "parseSpec now st1 tok = Inr st2"
    and r4: "parseSpecs now st2 post = Inr st"
    by (auto split: sum.splits)
  have n2: "\<not> isRepeat st2" using parseSpecs_isRepeat [OF r4] single by blast
  have n1: "\<not> isRepeat st1" using parseSpec_isRepeat [OF r3] n2 by blast
  from r3 n1 tokd have "parseDate now tok st1 = Inr st2"
    by (simp add: parseSpec_def)
  with parseDate_three_fields [OF dashes scan, of now st1] small
  have st2: "st2 = st1\<lparr>year := p + 2000, month := mo, day := da\<rparr>" by simp
  from parseSpecs_keeps_date [OF r4 single final] st2
  have f: "year st = p + 2000" "month st = mo" "day st = da" by simp_all
  from single_plan_state [OF single plan] f
  have t: "Time plan = Date (p + 2000) mo da (hour st) (minute st) (second st)" by simp
  have "Year (Time plan) = p + 2000"
    if "validDate (p + 2000) mo da \<and> validClock (hour st) (minute st) (second st)"
    unfolding t using that by (intro Year_Date) simp_all
  with f t show ?thesis by blast
qed

subsection \<open>Two-digit years in the first revision\<close>

lemma parseSpecs_sched_append:
  "parseSpecs_sched now st (xs @ ys) =
     (case parseSpecs_sched now st xs of Inl e \<Rightarrow> Inl e | Inr st' \<Rightarrow> parseSpecs_sched now st' ys)"
  by (induction xs arbitrary: st) (auto split: sum.splits)

lemma parseDate_sched_flags:
  "parseDate_sched now spec st = Inr st' \<Longrightarrow>
     isRepeat st' = isRepeat st \<and> isHourRepeat st' = isHourRepeat st"
  by (auto simp: parseDate_sched_def Let_def simp del: Sscanf.simps split: prod.splits if_splits)

lemma parseTime_flags:
  "parseTime spec st = Inr st' \<Longrightarrow>
     isRepeat st' = isRepeat st \<and> isHourRepeat st' = isHourRepeat st"
  by (auto simp: parseTime_def Let_def simp del: Sscanf.simps split: prod.splits if_splits)

lemma parseMinuteSecond_flags:
  "parseMinuteSecond spec st = Inr st' \<Longrightarrow>
     isRepeat st' = isRepeat st \<and> isHourRepeat st' = isHourRepeat st"
  by (auto simp: parseMinuteSecond_def simp del: Sscanf.simps split: prod.splits if_splits)

lemma parseSpec_sched_isRepeat:
  assumes "parseSpec_sched now st spec = Inr st'" and "isRepeat st"
  shows "isRepeat st'"
  using assms
  by (auto simp: parseSpec_sched_def split: if_splits
      dest!: parseDate_sched_flags parseTime_keeps parseMinuteSecond_keeps)

lemma parseSpecs_sched_isRepeat:
  "parseSpecs_sched now st specs = Inr st' \<Longrightarrow> isRepeat st \<Longrightarrow> isRepeat st'"
proof (induction specs arbitrary: st)
  case Nil
  then show ?case by simp
next
  case (Cons spec specs)
  then show ?case
    by (auto split: sum.splits dest: parseSpec_sched_isRepeat)
qed

lemma parseSpec_sched_hour:
  assumes "parseSpec_sched now st spec = Inr st'" and "isHourRepeat st \<longrightarrow> isRepeat st"
  shows "isHourRepeat st' \<longrightarrow> isRepeat st'"
  using assms
  by (auto simp: parseSpec_sched_def split: if_splits
      dest!: parseDate_sched_flags parseTime_flags parseMinuteSecond_flags)

lemma parseSpecs_sched_hour:
  "parseSpecs_sched now st specs = Inr st' \<Longrightarrow> isHourRepeat st \<longrightarrow> isRepeat st \<Longrightarrow>
   isHourRepeat st' \<longrightarrow> isRepeat st'"
proof (induction specs arbitrary: st)
  case Nil
  then show ?case by simp
next
  case (Cons spec specs)
  from Cons.prems(1) obtain st1 where s1: "parseSpec_sched now st spec = Inr st1"
    and s2: "parseSpecs_sched now st1 specs = Inr st'"
    by (auto split: sum.splits)
  from Cons.IH [OF s2 parseSpec_sched_hour [OF s1 Cons.prems(2)]] show ?case .
qed

lemma parseSpec_sched_keeps_date:
  assumes "parseSpec_sched now st spec = Inr st'" and "\<not> isRepeat st"
    and "\<not> MatchString datePattern spec"
  shows "year st' = year st \<and> month st' = month st \<and> day st' = day st"
  using assms
  by (auto simp: parseSpec_sched_def split: if_splits
      dest!: parseTime_keeps parseMinuteSecond_keeps)

lemma parseSpecs_sched_keeps_date:
  "parseSpecs_sched now st specs = Inr st' \<Longrightarrow> \<not> isRepeat st' \<Longrightarrow>
   \<forall>spec \<in> set specs. \<not> MatchString datePattern spec \<Longrightarrow>
   year st' = year st \<and> month st' = month st \<and> day st' = day st"
proof (induction specs arbitrary: st)
  case Nil
  then show ?case by simp
next
  case (Cons spec specs)
  from Cons.prems(1) obtain st1 where s1: "parseSpec_sched now st spec = Inr st1"
    and s2: "parseSpecs_sched now st1 specs = Inr st'"
    by (auto split: sum.splits)
  have n1: "\<not> isRepeat st1" using parseSpecs_sched_isRepeat [OF s2] Cons.prems(2) by blast
  have n0: "\<not> isRepeat st" using parseSpec_sched_isRepeat [OF s1] n1 by blast
  from Cons.prems(3) have m: "\<not> MatchString datePattern spec"
    and ms: "\<forall>spec \<in> set specs. \<not> MatchString datePattern spec" by simp_all
  from parseSpec_sched_keeps_date [OF s1 n0 m] Cons.IH [OF s2 Cons.prems(2) ms]
  show ?case by simp
qed

lemma parseDate_sched_three_fields:
  assumes "Count tok CHR ''-'' = 2"
    and "Sscanf tok [Verb_d, Lit CHR ''-'', Verb_d, Lit CHR ''-'', Verb_d] = ([p, mo, da], False)"
  shows "parseDate_sched now tok st = Inr (st\<lparr>year := p, month := mo, day := da\<rparr>)"
  unfolding parseDate_sched_def Let_def assms by simp

lemma parseDateTime_year:
  assumes run: "parseSpecs_sched now initial (pre @ tok # post) = Inr st"
    and single: "\<not> isRepeat st"
    and tokd: "MatchString datePattern tok"
    and dashes: "Count tok CHR ''-'' = 2"
    and scan: "Sscanf tok [Verb_d, Lit CHR ''-'', Verb_d, Lit CHR ''-'', Verb_d]
               = ([p, mo, da], False)"
    and final: "\<forall>spec \<in> set post. \<not> MatchString datePattern spec"
  shows "resolveDateTime now st = Inr (Date p mo da (hour st) (minute st) (second st))
     \<and> (validDate p mo da \<and> validClock (hour st) (minute st) (second st)
          \<longrightarrow> Year (Date p mo da (hour st) (minute st) (second st)) = p)"
proof -
  from run obtain st1 where r1: "parseSpecs_sched now initial pre = Inr st1"
    and r2: "parseSpecs_sched now st1 (tok # post) = Inr st"
    by (auto simp: parseSpecs_sched_append split: sum.splits)
  from r2 obtain st2 where r3: "parseSpec_sched now st1 tok = Inr st2"
    and r4: "parseSpecs_sched now st2 post = Inr st"
    by (auto split: sum.splits)
  have n2: "\<not> isRepeat st2" using parseSpecs_sched_isRepeat [OF r4] single by blast
  have n1: "\<not> isRepeat st1" using parseSpec_sched_isRepeat [OF r3] n2 by blast
  from r3 n1 tokd have "parseDate_sched now tok st1 = Inr st2"
    by (simp add: parseSpec_sched_def)
  with parseDate_sched_three_fields [OF dashes scan, of now st1]
  have st2: "st2 = st1\<lparr>year := p, month := mo, day := da\<rparr>" by simp
  from parseSpecs_sched_keeps_date [OF r4 single final] st2
  have f: "year st = p" "month st = mo" "day st = da" by simp_all
  have "isHourRepeat st \<longrightarrow> isRepeat st"
    by (rule parseSpecs_sched_hour [OF run]) (simp add: initial_def)
  with single have nh: "\<not> isHourRepeat st" by blast
  from nh single f
  have t: "resolveDateTime now st = Inr (Date p mo da (hour st) (minute st) (second st))"
    by (simp add: resolveDateTime_def)
  have "Year (Date p mo da (hour st) (minute st) (second st)) = p"
    if "validDate p mo da \<and> validClock (hour st) (minute st) (second st)"
    using that by (intro Year_Date) simp_all
  with t show ?thesis by blast
qed

text \<open>
  Claim C8 asks for the year \<open>p + 2000\<close> on every line without repeat whose date token has a
  year \<open>p\<close> below 1000.  The date pattern of both revisions admits a year of two digits.
  \<^verbatim>\<open>parseDate\<close> of the latest revision adds 2000 to it; \<^verbatim>\<open>parseDate\<close> of
  \<^verbatim>\<open>src/sched.go\<close> has no such step: for the same tokens \<^verbatim>\<open>parseDateTime\<close> returns
  \<^verbatim>\<open>time.Date(p, ...)\<close>, an instant of the year \<open>p\<close> for every date of the calendar, where
  \<^verbatim>\<open>parsePlan\<close> returns a plan in the year \<open>p + 2000\<close>.  The line \<^verbatim>\<open>24-06-01 08:00\<close>
  resolves to the first of June of the year 24 in the first revision, and of the year 2024
  in the latest.
\<close>

theorem two_digit_year_first_revision:
  assumes tokd: "MatchString datePattern tok"
    and dashes: "Count tok CHR ''-'' = 2"
    and scan: "Sscanf tok [Verb_d, Lit CHR ''-'', Verb_d, Lit CHR ''-'', Verb_d]
               = ([p, mo, da], False)"
    and small: "p < 1000"
    and final: "\<forall>spec \<in> set post. \<not> MatchString datePattern spec"
    and toks0: "map TrimSpace (Split line0 CHR '' '') = pre @ tok # post"
    and toks: "fst (splitComment (Split line CHR '' '')) = pre @ tok # post"
  shows "(\<forall>st. parseSpecs_sched now initial (pre @ tok # post) = Inr st \<and> \<not> isRepeat st \<longrightarrow>
            parseDateTime now line0 = Inr (Date p mo da (hour st) (minute st) (second st))
            \<and> (validDate p mo da \<and> validClock (hour st) (minute st) (second st)
                 \<longrightarrow> Year (Date p mo da (hour st) (minute st) (second st)) = p))
     \<and> (\<forall>st. parseSpecs now initial (pre @ tok # post) = Inr st \<and> \<not> isRepeat st \<longrightarrow>
            (\<exists>plan. parsePlan self now line = Some (Inr plan)
               \<and> Time plan = Date (p + 2000) mo da (hour st) (minute st) (second st)
               \<and> (validDate (p + 2000) mo da \<and> validClock (hour st) (minute st) (second st)
                    \<longrightarrow> Year (Time plan) = p + 2000)))"
proof -
  have A: "\<forall>st. parseSpecs_sched now initial (pre @ tok # post) = Inr st \<and> \<not> isRepeat st \<longrightarrow>
            parseDateTime now line0 = Inr (Date p mo da (hour st) (minute st) (second st))
            \<and> (validDate p mo da \<and> validClock (hour st) (minute st) (second st)
                 \<longrightarrow> Year (Date p mo da (hour st) (minute st) (second st)) = p)"
  proof (intro allI impI)
    fix st
    assume a: "parseSpecs_sched now initial (pre @ tok # post) = Inr st \<and> \<not> isRepeat st"
    then have run: "parseSpecs_sched now initial (pre @ tok # post) = Inr st"
      and single: "\<not> isRepeat st" by blast+
    have "parseDateTime now line0 = resolveDateTime now st"
      unfolding parseDateTime_def toks0 run by simp
    with parseDateTime_year [OF run single tokd dashes scan final]
    show "parseDateTime now line0 = Inr (Date p mo da (hour st) (minute st) (second st))
            \<and> (validDate p mo da \<and> validClock (hour st) (minute st) (second st)
                 \<longrightarrow> Year (Date p mo da (hour st) (minute st) (second st)) = p)"
      by simp
  qed
  have B: "\<forall>st. parseSpecs now initial (pre @ tok # post) = Inr st \<and> \<not> isRepeat st \<longrightarrow>
            (\<exists>plan. parsePlan self now line = Some (Inr plan)
               \<and> Time plan = Date (p + 2000) mo da (hour st) (minute st) (second st)
               \<and> (validDate (p + 2000) mo da \<and> validClock (hour st) (minute st) (second st)
                    \<longrightarrow> Year (Time plan) = p + 2000))"
  proof (intro allI impI)
    fix st
    assume a: "parseSpecs now initial (pre @ tok # post) = Inr st \<and> \<not> isRepeat st"
    then have run: "parseSpecs now initial (pre @ tok # post) = Inr st"
      and single: "\<not> isRepeat st" by blast+
    from run have run': "parseSpecs now initial (fst (splitComment (Split line CHR '' ''))) = Inr st"
      by (simp only: toks)
    from resolvePlan_single [OF single] obtain plan
      where plan: "resolvePlan self now (Join (snd (splitComment (Split line CHR '' ''))) '' '') st
                   = Some (Inr plan)"
      by blast
    then have "parsePlan self now line = Some (Inr plan)"
      by (simp only: parsePlan_resolve [OF run'])
    with parsePlan_two_digit_year [OF run single tokd dashes scan small final plan]
    show "\<exists>plan. parsePlan self now line = Some (Inr plan)
               \<and> Time plan = Date (p + 2000) mo da (hour st) (minute st) (second st)
               \<and> (validDate (p + 2000) mo da \<and> validClock (hour st) (minute st) (second st)
                    \<longrightarrow> Year (Time plan) = p + 2000)"
      by blast
  qed
  from A B show ?thesis by (rule conjI)
qed

theorem two_digit_year_first_revision_witness:
  "MatchString datePattern ''24-06-01'' \<and> Count ''24-06-01'' CHR ''-'' = 2
   \<and> Sscanf ''24-06-01'' [Verb_d, Lit CHR ''-'', Verb_d, Lit CHR ''-'', Verb_d]
       = ([24, 6, 1], False)
   \<and> \<not> MatchString datePattern ''08:00''
   \<and> map TrimSpace (Split (''24-06-01 08:00'' @ [CHR 0x0A]) CHR '' '') = [] @ ''24-06-01'' # [''08:00'']
   \<and> fst (splitComment (Split ''24-06-01 08:00'' CHR '' '')) = [] @ ''24-06-01'' # [''08:00'']
   \<and> parseSpecs_sched (Date 2024 5 1 12 0 0) initial ([] @ ''24-06-01'' # [''08:00''])
       = Inr (initial\<lparr>year := 24, month := 6, day := 1, hour := 8\<rparr>)
   \<and> parseSpecs (Date 2024 5 1 12 0 0) initial ([] @ ''24-06-01'' # [''08:00''])
       = Inr (initial\<lparr>year := 2024, month := 6, day := 1, hour := 8\<rparr>)
   \<and> validDate 24 6 1 \<and> validDate (24 + 2000) 6 1 \<and> validClock 8 0 0
   \<and> parseDateTime (Date 2024 5 1 12 0 0) (''24-06-01 08:00'' @ [CHR 0x0A])
       = Inr (Date 24 6 1 8 0 0)
   \<and> Year (Date 24 6 1 8 0 0) = 24
   \<and> (\<exists>plan. parsePlan job0 (Date 2024 5 1 12 0 0) ''24-06-01 08:00'' = Some (Inr plan)
         \<and> Time plan = Date (24 + 2000) 6 1 8 0 0
         \<and> Year (Time plan) = 24 + 2000)"
proof -
  have tokd: "MatchString datePattern ''24-06-01''" by code_simp
  have dashes: "Count ''24-06-01'' CHR ''-'' = 2" by code_simp
  have scan: "Sscanf ''24-06-01'' [Verb_d, Lit CHR ''-'', Verb_d, Lit CHR ''-'', Verb_d]
       = ([24, 6, 1], False)"
    by code_simp
  have small: "(24::int) < 1000" by simp
  have nd: "\<not> MatchString datePattern ''08:00''" by code_simp
  then have final: "\<forall>spec \<in> set [''08:00'']. \<not> MatchString datePattern spec" by simp
  have toks0: "map TrimSpace (Split (''24-06-01 08:00'' @ [CHR 0x0A]) CHR '' '')
               = [] @ ''24-06-01'' # [''08:00'']"
    by code_simp
  have toks: "fst (splitComment (Split ''24-06-01 08:00'' CHR '' ''))
              = [] @ ''24-06-01'' # [''08:00'']"
    by code_simp
  have run0: "parseSpecs_sched (Date 2024 5 1 12 0 0) initial ([] @ ''24-06-01'' # [''08:00''])
       = Inr (initial\<lparr>year := 24, month := 6, day := 1, hour := 8\<rparr>)"
    by code_simp
  have run: "parseSpecs (Date 2024 5 1 12 0 0) initial ([] @ ''24-06-01'' # [''08:00''])
       = Inr (initial\<lparr>year := 2024, month := 6, day := 1, hour := 8\<rparr>)"
    by code_simp
  have single0: "\<not> isRepeat (initial\<lparr>year := 24, month := 6, day := 1, hour := 8\<rparr>)"
    by code_simp
  have single: "\<not> isRepeat (initial\<lparr>year := 2024, month := 6, day := 1, hour := 8\<rparr>)"
    by code_simp
  have vd0: "validDate 24 6 1" by code_simp
  have vd: "validDate (24 + 2000) 6 1" by code_simp
  have vc: "validClock 8 0 0" by code_simp
  have f0: "hour (initial\<lparr>year := 24, month := 6, day := 1, hour := 8\<rparr>) = 8"
    "minute (initial\<lparr>year := 24, month := 6, day := 1, hour := 8\<rparr>) = 0"
    "second (initial\<lparr>year := 24, month := 6, day := 1, hour := 8\<rparr>) = 0"
    by (simp_all add: initial_def)
  have f: "hour (initial\<lparr>year := 2024, month := 6, day := 1, hour := 8\<rparr>) = 8"
    "minute (initial\<lparr>year := 2024, month := 6, day := 1, hour := 8\<rparr>) = 0"
    "second (initial\<lparr>year := 2024, month := 6, day := 1, hour := 8\<rparr>) = 0"
    by (simp_all add: initial_def)
  note T = two_digit_year_first_revision [OF tokd dashes scan small final toks0 toks,
      of "Date 2024 5 1 12 0 0" job0]
  note T0 = T [THEN conjunct1, rule_format, OF conjI, OF run0 single0, unfolded f0]
  note T1 = T [THEN conjunct2, rule_format, OF conjI, OF run single, unfolded f]
  have r0: "parseDateTime (Date 2024 5 1 12 0 0) (''24-06-01 08:00'' @ [CHR 0x0A])
       = Inr (Date 24 6 1 8 0 0)"
    using T0 by (rule conjunct1)
  have y0: "Year (Date 24 6 1 8 0 0) = 24"
    using T0 [THEN conjunct2] vd0 vc by blast
  have r1: "\<exists>plan. parsePlan job0 (Date 2024 5 1 12 0 0) ''24-06-01 08:00'' = Some (Inr plan)
         \<and> Time plan = Date (24 + 2000) 6 1 8 0 0
         \<and> Year (Time plan) = 24 + 2000"
    using T1 vd vc by blast
  from tokd dashes scan nd toks0 toks run0 run vd0 vd vc r0 y0 r1 show ?thesis
    by (intro conjI)
qed

section \<open>The repeat projectors\<close>

lemma Hour_pos: "0 < Hour"
  by (simp add: Hour_def Minute_def Second_def)

lemma untilWeekday_ge: "t \<le> untilWeekday dow t"
proof (induction dow t rule: untilWeekday.induct)
  case (1 dow t)
  show ?case
  proof (cases "Weekday t = dow")
    case True
    then show ?thesis by (simp add: untilWeekday.simps)
  next
    case False
    with 1 have "t + 24 * Hour \<le> untilWeekday dow (t + 24 * Hour)" by simp
    moreover from False have "untilWeekday dow t = untilWeekday dow (t + 24 * Hour)"
      by (subst untilWeekday.simps) simp
    ultimately show ?thesis using Hour_pos by simp
  qed
qed

lemma untilDay_Some:
  assumes "untilDay d t = Some y"
  shows "t \<le> y \<and> Day y = d"
proof (rule untilDay.raw_induct [where P = "\<lambda>d t y. t \<le> y \<and> Day y = d", OF _ assms])
  fix f :: "int \<Rightarrow> time \<Rightarrow> time option" and d t y
  assume ih: "\<And>d t y. f d t = Some y \<Longrightarrow> t \<le> y \<and> Day y = d"
    and eq: "(if Day t \<noteq> d then f d (t + 24 * Hour) else Some t) = Some y"
  show "t \<le> y \<and> Day y = d"
  proof (cases "Day t = d")
    case True
    with eq show ?thesis by simp
  next
    case False
    with eq have "f d (t + 24 * Hour) = Some y" by simp
    then have "t + 24 * Hour \<le> y \<and> Day y = d" by (rule ih)
    then show ?thesis using Hour_pos by simp
  qed
qed

lemma untilDay_out_of_range:
  assumes "d < 1 \<or> 31 < d"
  shows "untilDay d t = None"
proof (cases "untilDay d t")
  case None
  then show ?thesis .
next
  case (Some y)
  from untilDay_Some [OF Some] Day_range [of y] assms show ?thesis by simp
qed

lemma nextMonthRepeat_out_of_range:
  "d < 1 \<or> 31 < d \<Longrightarrow> nextMonthRepeat self now dur d h mi s = None"
  by (simp add: nextMonthRepeat_def untilDay_out_of_range)

lemma absDays_add_days: "absDays (t + k * (24 * Hour)) = absDays t + k"
  by (simp add: absDays_def Hour_def Minute_def Second_def)

lemma monthDay_January: "0 \<le> yd \<Longrightarrow> yd \<le> 30 \<Longrightarrow> monthDay y yd = (1, yd + 1)"
  by (simp add: monthDay_def Let_def daysBefore_def)

lemma day_occurs_later:
  assumes d: "1 \<le> d" "d \<le> 31"
  shows "\<exists>k::nat. Day (t + int k * (24 * Hour)) = d"
proof -
  obtain y yd where e: "yearDay (absDays t) = (y, yd)" by (cases "yearDay (absDays t)")
  from yearDay_char [OF e] have lt: "absDays t < daysBeforeYear (y + 1)"
    by (simp add: daysBeforeYear_Suc)
  define z where "z = daysBeforeYear (y + 1) + (d - 1)"
  define k where "k = nat (z - absDays t)"
  have k: "int k = z - absDays t" using lt d by (simp add: k_def z_def)
  have "yearDay z = (y + 1, z - daysBeforeYear (y + 1))"
  proof (rule yearDay_unique)
    show "daysBeforeYear (y + 1) \<le> z" using d by (simp add: z_def)
    show "z < daysBeforeYear (y + 1 + 1)"
      unfolding daysBeforeYear_Suc [of "y + 1"] z_def using d by simp
  qed
  then have yz: "yearDay z = (y + 1, d - 1)" by (simp add: z_def)
  have "absDays (t + int k * (24 * Hour)) = z"
    unfolding absDays_add_days k by simp
  then have "Day (t + int k * (24 * Hour)) = snd (monthDay (y + 1) (d - 1))"
    by (simp add: Day_def yz)
  also have "\<dots> = d" using d by (simp add: monthDay_January)
  finally show ?thesis by blast
qed

lemma untilDay_reaches:
  "Day (t + int k * (24 * Hour)) = d \<Longrightarrow> \<exists>y. untilDay d t = Some y"
proof (induction k arbitrary: t)
  case 0
  then show ?case by (subst untilDay.simps) simp
next
  case (Suc k)
  show ?case
  proof (cases "Day t = d")
    case True
    then show ?thesis by (subst untilDay.simps) simp
  next
    case False
    from Suc.prems have "Day ((t + 24 * Hour) + int k * (24 * Hour)) = d"
      by (simp add: algebra_simps)
    from Suc.IH [OF this] obtain y where "untilDay d (t + 24 * Hour) = Some y" by blast
    with False show ?thesis by (subst untilDay.simps) simp
  qed
qed

lemma untilDay_terminates:
  "1 \<le> d \<Longrightarrow> d \<le> 31 \<Longrightarrow> \<exists>y. untilDay d t = Some y"
  using day_occurs_later [of d t] untilDay_reaches by blast

lemma untilDay_None_iff: "untilDay d t = None \<longleftrightarrow> d < 1 \<or> 31 < d"
proof (cases "1 \<le> d \<and> d \<le> 31")
  case True
  with untilDay_terminates [of d t] show ?thesis by auto
next
  case False
  with untilDay_out_of_range [of d t] show ?thesis by auto
qed

lemma nextHourRepeat_min:
  "nextHourRepeat self now dur mi s =
     (let t = Date (Year now) (Month now) (Day now) (ClockHour now) mi s;
          tEnd = t + min dur Hour
      in if between now t tEnd \<and> \<not> hasLog self t tEnd then (t, NOW)
         else if now > t then (t + Hour, WAIT) else (t, WAIT))"
  by (cases "Hour < dur") (simp_all add: nextHourRepeat_def Let_def min_def)

lemma nextDayRepeat_min:
  "nextDayRepeat self now dur h mi s =
     (let t = Date (Year now) (Month now) (Day now) h mi s;
          tEnd = t + min dur (Hour * 24)
      in if between now t tEnd \<and> \<not> hasLog self t tEnd then (t, NOW)
         else if now > t then (t + Hour * 24, WAIT) else (t, WAIT))"
  by (cases "Hour * 24 < dur") (simp_all add: nextDayRepeat_def Let_def min_def)

lemma nextWeekRepeat_min:
  "nextWeekRepeat self now dur dow h mi s =
     (let t = untilWeekday dow (Date (Year now) (Month now) (Day now) h mi s);
          tEnd = t + min dur (Hour * 24 * 7)
      in if between now t tEnd \<and> \<not> hasLog self t tEnd then (t, NOW)
         else if now > t then (untilWeekday dow (t + 24 * Hour), WAIT) else (t, WAIT))"
  by (cases "Hour * 24 * 7 < dur") (simp_all add: nextWeekRepeat_def Let_def min_def)

lemma nextMonthRepeat_min:
  "untilDay d (Date (Year now) (Month now) d h mi s) = Some t \<Longrightarrow>
   nextMonthRepeat self now dur d h mi s =
     (let tEnd = t + min dur (Hour * 24 * 30)
      in if between now t tEnd \<and> \<not> hasLog self t tEnd then Some (t, NOW)
         else if now > t then map_option (\<lambda>t'. (t', WAIT)) (untilDay d (t + 24 * Hour))
         else Some (t, WAIT))"
  by (cases "Hour * 24 * 30 < dur"; cases "untilDay d (t + 24 * Hour)")
     (simp_all add: nextMonthRepeat_def Let_def min_def)

lemma nextMonthRepeat_None:
  "untilDay d (Date (Year now) (Month now) d h mi s) = None \<Longrightarrow>
   nextMonthRepeat self now dur d h mi s = None"
  by (simp add: nextMonthRepeat_def)

lemma nextMonthRepeat_returns:
  assumes "1 \<le> d" "d \<le> 31"
  shows "\<exists>t st. nextMonthRepeat self now dur d h mi s = Some (t, st)"
proof -
  from untilDay_terminates [OF assms] obtain t
    where t: "untilDay d (Date (Year now) (Month now) d h mi s) = Some t" by blast
  from untilDay_terminates [OF assms] obtain t'
    where t': "untilDay d (t + 24 * Hour) = Some t'" by blast
  show ?thesis
    by (simp add: nextMonthRepeat_min [OF t] Let_def t')
qed

lemma nextHourRepeat_state:
  "snd (nextHourRepeat self now dur mi s) = NOW \<or> snd (nextHourRepeat self now dur mi s) = WAIT"
  by (simp add: nextHourRepeat_def Let_def)

lemma nextDayRepeat_state:
  "snd (nextDayRepeat self now dur h mi s) = NOW \<or> snd (nextDayRepeat self now dur h mi s) = WAIT"
  by (simp add: nextDayRepeat_def Let_def)

lemma nextWeekRepeat_state:
  "snd (nextWeekRepeat self now dur dow h mi s) = NOW
   \<or> snd (nextWeekRepeat self now dur dow h mi s) = WAIT"
  by (simp add: nextWeekRepeat_def Let_def)

lemma nextMonthRepeat_state:
  "nextMonthRepeat self now dur d h mi s = Some (t, st) \<Longrightarrow> st = NOW \<or> st = WAIT"
  by (auto simp: nextMonthRepeat_def Let_def split: option.splits if_splits)

lemma resolvePlan_repeat_state:
  assumes r: "isRepeat ps" and p: "resolvePlan self now c ps = Some (Inr p)"
  shows "State p = NOW \<or> State p = WAIT"
proof -
  consider (hr) "isHourRepeat ps"
    | (dy) "\<not> isHourRepeat ps" "isDayRepeat ps"
    | (wk) "\<not> isHourRepeat ps" "\<not> isDayRepeat ps" "isWeekRepeat ps"
    | (mo) "\<not> isHourRepeat ps" "\<not> isDayRepeat ps" "\<not> isWeekRepeat ps" "isMonthRepeat ps"
    | (no) "\<not> isHourRepeat ps" "\<not> isDayRepeat ps" "\<not> isWeekRepeat ps" "\<not> isMonthRepeat ps"
    by blast
  then show ?thesis
  proof cases
    case hr
    obtain t st where e: "nextHourRepeat self now (duration ps) (minute ps) (second ps) = (t, st)"
      by (cases "nextHourRepeat self now (duration ps) (minute ps) (second ps)")
    with nextHourRepeat_state [of self now "duration ps" "minute ps" "second ps"]
    have "st = NOW \<or> st = WAIT" by simp
    moreover from r p hr e have "State p = st" by (auto simp: resolvePlan_def)
    ultimately show ?thesis by simp
  next
    case dy
    obtain t st where
      e: "nextDayRepeat self now (duration ps) (hour ps) (minute ps) (second ps) = (t, st)"
      by (cases "nextDayRepeat self now (duration ps) (hour ps) (minute ps) (second ps)")
    with nextDayRepeat_state [of self now "duration ps" "hour ps" "minute ps" "second ps"]
    have "st = NOW \<or> st = WAIT" by simp
    moreover from r p dy e have "State p = st" by (auto simp: resolvePlan_def)
    ultimately show ?thesis by simp
  next
    case wk
    obtain t st where
      e: "nextWeekRepeat self now (duration ps) (dayOfWeek ps) (hour ps) (minute ps) (second ps)
          = (t, st)"
      by (cases "nextWeekRepeat self now (duration ps) (dayOfWeek ps) (hour ps) (minute ps)
                   (second ps)")
    with nextWeekRepeat_state [of self now "duration ps" "dayOfWeek ps" "hour ps" "minute ps"
        "second ps"]
    have "st = NOW \<or> st = WAIT" by simp
    moreover from r p wk e have "State p = st" by (auto simp: resolvePlan_def)
    ultimately show ?thesis by simp
  next
    case mo
    from r p mo obtain t st where
      e: "nextMonthRepeat self now (duration ps) (day ps) (hour ps) (minute ps) (second ps)
          = Some (t, st)"
      and s: "State p = st"
      by (auto simp: resolvePlan_def split: option.splits)
    from nextMonthRepeat_state [OF e] s show ?thesis by simp
  next
    case no
    with r p show ?thesis by (simp add: resolvePlan_def)
  qed
qed

text \<open>
  Claim C10: whatever the clock, the run log and the anchor fields are, the state a
  repeat projector returns is \<open>NOW\<close> or \<open>WAIT\<close>, and so is the state of every plan that
  the resolver makes of a repeating line; \<open>EXPIRED\<close> never occurs.  The hourly, daily and
  weekly projectors always return; the monthly one returns for every anchor day from 1 to
  31, and the statement holds of every result it returns.
\<close>

theorem repeating_plan_now_or_wait:
  "(snd (nextHourRepeat self now dur mi s) = NOW \<or> snd (nextHourRepeat self now dur mi s) = WAIT)
   \<and> (snd (nextDayRepeat self now dur h mi s) = NOW
        \<or> snd (nextDayRepeat self now dur h mi s) = WAIT)
   \<and> (snd (nextWeekRepeat self now dur dow h mi s) = NOW
        \<or> snd (nextWeekRepeat self now dur dow h mi s) = WAIT)
   \<and> (\<forall>t st. nextMonthRepeat self now dur d h mi s = Some (t, st) \<longrightarrow> st = NOW \<or> st = WAIT)
   \<and> (\<forall>p. isRepeat ps \<and> resolvePlan self now c ps = Some (Inr p)
          \<longrightarrow> State p = NOW \<or> State p = WAIT)
   \<and> (1 \<le> d \<and> d \<le> 31 \<longrightarrow> (\<exists>t st. nextMonthRepeat self now dur d h mi s = Some (t, st)))"
proof -
  have ret: "1 \<le> d \<and> d \<le> 31 \<longrightarrow> (\<exists>t st. nextMonthRepeat self now dur d h mi s = Some (t, st))"
    using nextMonthRepeat_returns by blast
  have res: "\<forall>p. isRepeat ps \<and> resolvePlan self now c ps = Some (Inr p)
          \<longrightarrow> State p = NOW \<or> State p = WAIT"
    using resolvePlan_repeat_state by blast
  have mo: "\<forall>t st. nextMonthRepeat self now dur d h mi s = Some (t, st)
          \<longrightarrow> st = NOW \<or> st = WAIT"
    using nextMonthRepeat_state by blast
  show ?thesis
    using nextHourRepeat_state [of self now dur mi s] nextDayRepeat_state [of self now dur h mi s]
      nextWeekRepeat_state [of self now dur dow h mi s] mo res ret
    by (intro conjI)
qed

theorem repeating_plan_now_or_wait_witness:
  "(\<exists>t st. nextMonthRepeat job0 (Date 2024 2 3 11 0 0) Hour 31 9 0 0 = Some (t, st)
       \<and> (st = NOW \<or> st = WAIT))
   \<and> (\<exists>p. isRepeat weeklyState
       \<and> resolvePlan job0 (Date 2024 1 3 9 30 0) ''weekly backup'' weeklyState = Some (Inr p)
       \<and> (State p = NOW \<or> State p = WAIT))"
proof -
  have m: "nextMonthRepeat job0 (Date 2024 2 3 11 0 0) Hour 31 9 0 0
           = Some (Date 2024 3 31 9 0 0, WAIT)"
    by code_simp
  have w: "resolvePlan job0 (Date 2024 1 3 9 30 0) ''weekly backup'' weeklyState
           = Some (Inr \<lparr>Time = Date 2024 1 3 9 0 0, Comment = ''weekly backup'', State = NOW\<rparr>)"
    by code_simp
  have r: "isRepeat weeklyState"
    by code_simp
  note T = repeating_plan_now_or_wait [of job0 "Date 2024 2 3 11 0 0" Hour 0 0 9 Sunday 31,
      THEN conjunct2, THEN conjunct2, THEN conjunct2, THEN conjunct1, rule_format, OF m]
  note U = repeating_plan_now_or_wait [where self = job0 and now = "Date 2024 1 3 9 30 0"
      and c = "''weekly backup''" and ps = weeklyState,
      THEN conjunct2, THEN conjunct2, THEN conjunct2, THEN conjunct2, THEN conjunct1,
      rule_format, OF conjI, OF r w]
  show ?thesis
  proof (intro conjI)
    show "\<exists>t st. nextMonthRepeat job0 (Date 2024 2 3 11 0 0) Hour 31 9 0 0 = Some (t, st)
       \<and> (st = NOW \<or> st = WAIT)"
      using m T by (intro exI conjI)
    show "\<exists>p. isRepeat weeklyState
       \<and> resolvePlan job0 (Date 2024 1 3 9 30 0) ''weekly backup'' weeklyState = Some (Inr p)
       \<and> (State p = NOW \<or> State p = WAIT)"
      using r w U by (intro exI conjI)
  qed
qed

subsection \<open>The clamped window\<close>

text \<open>
  Claim C3: the duration a projector uses is the given one cut down to the period of the
  cadence, \<open>min dur\<close> of 1 hour, 24 hours, 7 days or 30 days.  For each cadence the
  projector answers \<open>NOW\<close> exactly when the clock lies in the window from the projected
  occurrence to that occurrence plus the clamped duration and the run log has no entry
  there, and its whole result is the one it gives for the clamped duration.  For the
  monthly cadence the window exists where the search for the day of the month ends.
\<close>

theorem duration_clamped:
  "(snd (nextHourRepeat self now dur mi s) = NOW \<longleftrightarrow>
       between now (Date (Year now) (Month now) (Day now) (ClockHour now) mi s)
         (Date (Year now) (Month now) (Day now) (ClockHour now) mi s + min dur Hour)
       \<and> \<not> hasLog self (Date (Year now) (Month now) (Day now) (ClockHour now) mi s)
             (Date (Year now) (Month now) (Day now) (ClockHour now) mi s + min dur Hour))
   \<and> (snd (nextDayRepeat self now dur h mi s) = NOW \<longleftrightarrow>
       between now (Date (Year now) (Month now) (Day now) h mi s)
         (Date (Year now) (Month now) (Day now) h mi s + min dur (Hour * 24))
       \<and> \<not> hasLog self (Date (Year now) (Month now) (Day now) h mi s)
             (Date (Year now) (Month now) (Day now) h mi s + min dur (Hour * 24)))
   \<and> (snd (nextWeekRepeat self now dur dow h mi s) = NOW \<longleftrightarrow>
       between now (untilWeekday dow (Date (Year now) (Month now) (Day now) h mi s))
         (untilWeekday dow (Date (Year now) (Month now) (Day now) h mi s)
            + min dur (Hour * 24 * 7))
       \<and> \<not> hasLog self (untilWeekday dow (Date (Year now) (Month now) (Day now) h mi s))
             (untilWeekday dow (Date (Year now) (Month now) (Day now) h mi s)
                + min dur (Hour * 24 * 7)))
   \<and> (\<forall>t. untilDay d (Date (Year now) (Month now) d h mi s) = Some t \<longrightarrow>
        ((\<exists>t'. nextMonthRepeat self now dur d h mi s = Some (t', NOW)) \<longleftrightarrow>
           between now t (t + min dur (Hour * 24 * 30))
           \<and> \<not> hasLog self t (t + min dur (Hour * 24 * 30))))
   \<and> nextHourRepeat self now dur mi s = nextHourRepeat self now (min dur Hour) mi s
   \<and> nextDayRepeat self now dur h mi s = nextDayRepeat self now (min dur (Hour * 24)) h mi s
   \<and> nextWeekRepeat self now dur dow h mi s
       = nextWeekRepeat self now (min dur (Hour * 24 * 7)) dow h mi s
   \<and> nextMonthRepeat self now dur d h mi s
       = nextMonthRepeat self now (min dur (Hour * 24 * 30)) d h mi s"
proof (intro conjI allI impI)
  show "snd (nextHourRepeat self now dur mi s) = NOW \<longleftrightarrow>
       between now (Date (Year now) (Month now) (Day now) (ClockHour now) mi s)
         (Date (Year now) (Month now) (Day now) (ClockHour now) mi s + min dur Hour)
       \<and> \<not> hasLog self (Date (Year now) (Month now) (Day now) (ClockHour now) mi s)
             (Date (Year now) (Month now) (Day now) (ClockHour now) mi s + min dur Hour)"
    by (simp add: nextHourRepeat_min Let_def)
  show "snd (nextDayRepeat self now dur h mi s) = NOW \<longleftrightarrow>
       between now (Date (Year now) (Month now) (Day now) h mi s)
         (Date (Year now) (Month now) (Day now) h mi s + min dur (Hour * 24))
       \<and> \<not> hasLog self (Date (Year now) (Month now) (Day now) h mi s)
             (Date (Year now) (Month now) (Day now) h mi s + min dur (Hour * 24))"
    by (simp add: nextDayRepeat_min Let_def)
  show "snd (nextWeekRepeat self now dur dow h mi s) = NOW \<longleftrightarrow>
       between now (untilWeekday dow (Date (Year now) (Month now) (Day now) h mi s))
         (untilWeekday dow (Date (Year now) (Month now) (Day now) h mi s)
            + min dur (Hour * 24 * 7))
       \<and> \<not> hasLog self (untilWeekday dow (Date (Year now) (Month now) (Day now) h mi s))
             (untilWeekday dow (Date (Year now) (Month now) (Day now) h mi s)
                + min dur (Hour * 24 * 7))"
    by (simp add: nextWeekRepeat_min Let_def)
  show "(\<exists>t'. nextMonthRepeat self now dur d h mi s = Some (t', NOW)) \<longleftrightarrow>
           between now t (t + min dur (Hour * 24 * 30))
           \<and> \<not> hasLog self t (t + min dur (Hour * 24 * 30))"
    if "untilDay d (Date (Year now) (Month now) d h mi s) = Some t" for t
    using that by (auto simp: nextMonthRepeat_min Let_def split: option.splits)
  show "nextHourRepeat self now dur mi s = nextHourRepeat self now (min dur Hour) mi s"
    by (simp add: nextHourRepeat_min Let_def)
  show "nextDayRepeat self now dur h mi s = nextDayRepeat self now (min dur (Hour * 24)) h mi s"
    by (simp add: nextDayRepeat_min Let_def)
  show "nextWeekRepeat self now dur dow h mi s
       = nextWeekRepeat self now (min dur (Hour * 24 * 7)) dow h mi s"
    by (simp add: nextWeekRepeat_min Let_def)
  show "nextMonthRepeat self now dur d h mi s
       = nextMonthRepeat self now (min dur (Hour * 24 * 30)) d h mi s"
    by (cases "untilDay d (Date (Year now) (Month now) d h mi s)")
       (simp_all add: nextMonthRepeat_min nextMonthRepeat_None)
qed


theorem duration_clamped_witness:
  "parseSpecs (Date 2024 2 3 9 30 0) initial
       (fst (splitComment (Split ''every hour ~2h'' CHR '' '')))
     = Inr (initial\<lparr>isRepeat := True, isHourRepeat := True, duration := 2 * Hour\<rparr>)
   \<and> min (2 * Hour) Hour = Hour
   \<and> nextHourRepeat job0 (Date 2024 2 3 9 30 0) (2 * Hour) 0 0
       = nextHourRepeat job0 (Date 2024 2 3 9 30 0) Hour 0 0
   \<and> untilDay 1 (Date (Year (Date 2024 1 31 12 0 0)) (Month (Date 2024 1 31 12 0 0)) 1 0 0 0)
       = Some (Date 2024 1 1 0 0 0)
   \<and> between (Date 2024 1 31 12 0 0) (Date 2024 1 1 0 0 0) (Date 2024 1 1 0 0 0 + 960 * Hour)
   \<and> \<not> (\<exists>t'. nextMonthRepeat job0 (Date 2024 1 31 12 0 0) (960 * Hour) 1 0 0 0 = Some (t', NOW))"
proof -
  have a: "parseSpecs (Date 2024 2 3 9 30 0) initial
       (fst (splitComment (Split ''every hour ~2h'' CHR '' '')))
     = Inr (initial\<lparr>isRepeat := True, isHourRepeat := True, duration := 2 * Hour\<rparr>)"
    by code_simp
  have b: "min (2 * Hour) Hour = Hour"
    by (simp add: Hour_def Minute_def Second_def)
  have c: "nextHourRepeat job0 (Date 2024 2 3 9 30 0) (2 * Hour) 0 0
       = nextHourRepeat job0 (Date 2024 2 3 9 30 0) Hour 0 0"
    using duration_clamped [of job0 "Date 2024 2 3 9 30 0" "2 * Hour" 0 0 0 Sunday 1]
    by (simp only: b)
  have d: "untilDay 1 (Date (Year (Date 2024 1 31 12 0 0)) (Month (Date 2024 1 31 12 0 0)) 1 0 0 0)
       = Some (Date 2024 1 1 0 0 0)"
    by code_simp
  have e: "between (Date 2024 1 31 12 0 0) (Date 2024 1 1 0 0 0) (Date 2024 1 1 0 0 0 + 960 * Hour)"
    by code_simp
  have f: "\<not> between (Date 2024 1 31 12 0 0) (Date 2024 1 1 0 0 0)
             (Date 2024 1 1 0 0 0 + min (960 * Hour) (Hour * 24 * 30))"
    by code_simp
  note T = duration_clamped [of job0 "Date 2024 1 31 12 0 0" "960 * Hour" 0 0 0 Sunday 1,
      THEN conjunct2, THEN conjunct2, THEN conjunct2, THEN conjunct1, rule_format, OF d]
  have g: "\<not> (\<exists>t'. nextMonthRepeat job0 (Date 2024 1 31 12 0 0) (960 * Hour) 1 0 0 0
                 = Some (t', NOW))"
    using T f by simp
  from a b c d e g show ?thesis by (intro conjI)
qed

subsection \<open>Windows that already hold a run\<close>

text \<open>
  Counterexample to claim C2 as stated: the job ran at 09:30:00 and the hourly line with
  anchor minute 30 is read at exactly 09:30:00.  The window from 09:30:00 to 10:30:00 holds
  the log entry, so the state is \<open>WAIT\<close>, but the occurrence returned is 09:30:00 itself,
  not a later one: the projector moves on only when the clock is after the occurrence.
\<close>

theorem logged_window_same_occurrence_counterexample:
  "hasLog jobLogged (Date 2024 1 1 9 30 0) (Date 2024 1 1 9 30 0 + Hour)
   \<and> Date (Year (Date 2024 1 1 9 30 0)) (Month (Date 2024 1 1 9 30 0)) (Day (Date 2024 1 1 9 30 0))
        (ClockHour (Date 2024 1 1 9 30 0)) 30 0 = Date 2024 1 1 9 30 0
   \<and> nextHourRepeat jobLogged (Date 2024 1 1 9 30 0) Hour 30 0 = (Date 2024 1 1 9 30 0, WAIT)"
  by code_simp


text \<open>
  Claim C2, amended: if a timestamp of the run log lies in the projected window, both ends
  included, the projector does not answer \<open>NOW\<close> for it: it answers \<open>WAIT\<close>, with an
  occurrence later than the projected one when the clock is after the projected occurrence,
  and with the projected occurrence itself otherwise.  For the monthly cadence this holds
  of every result the projector returns, and it returns for every anchor day from 1 to 31.
\<close>

theorem logged_window_waits:
  "(hasLog self (Date (Year now) (Month now) (Day now) (ClockHour now) mi s)
       (Date (Year now) (Month now) (Day now) (ClockHour now) mi s + min dur Hour) \<longrightarrow>
      snd (nextHourRepeat self now dur mi s) = WAIT
      \<and> (if Date (Year now) (Month now) (Day now) (ClockHour now) mi s < now
          then Date (Year now) (Month now) (Day now) (ClockHour now) mi s
               < fst (nextHourRepeat self now dur mi s)
          else fst (nextHourRepeat self now dur mi s)
               = Date (Year now) (Month now) (Day now) (ClockHour now) mi s))
   \<and> (hasLog self (Date (Year now) (Month now) (Day now) h mi s)
       (Date (Year now) (Month now) (Day now) h mi s + min dur (Hour * 24)) \<longrightarrow>
      snd (nextDayRepeat self now dur h mi s) = WAIT
      \<and> (if Date (Year now) (Month now) (Day now) h mi s < now
          then Date (Year now) (Month now) (Day now) h mi s
               < fst (nextDayRepeat self now dur h mi s)
          else fst (nextDayRepeat self now dur h mi s)
               = Date (Year now) (Month now) (Day now) h mi s))
   \<and> (\<forall>t. t = untilWeekday dow (Date (Year now) (Month now) (Day now) h mi s)
         \<and> hasLog self t (t + min dur (Hour * 24 * 7)) \<longrightarrow>
      snd (nextWeekRepeat self now dur dow h mi s) = WAIT
      \<and> (if t < now then t < fst (nextWeekRepeat self now dur dow h mi s)
          else fst (nextWeekRepeat self now dur dow h mi s) = t))
   \<and> (\<forall>t r. untilDay d (Date (Year now) (Month now) d h mi s) = Some t
         \<and> hasLog self t (t + min dur (Hour * 24 * 30))
         \<and> nextMonthRepeat self now dur d h mi s = Some r \<longrightarrow>
      snd r = WAIT \<and> (if t < now then t < fst r else fst r = t))
   \<and> (1 \<le> d \<and> d \<le> 31 \<longrightarrow> (\<exists>r. nextMonthRepeat self now dur d h mi s = Some r))"
proof (intro conjI allI impI)
  assume "1 \<le> d \<and> d \<le> 31"
  then show "\<exists>r. nextMonthRepeat self now dur d h mi s = Some r"
    using nextMonthRepeat_returns [of d self now dur h mi s] by auto
next
  assume "hasLog self (Date (Year now) (Month now) (Day now) (ClockHour now) mi s)
       (Date (Year now) (Month now) (Day now) (ClockHour now) mi s + min dur Hour)"
  then show "snd (nextHourRepeat self now dur mi s) = WAIT"
    by (simp add: nextHourRepeat_min Let_def)
next
  assume "hasLog self (Date (Year now) (Month now) (Day now) (ClockHour now) mi s)
       (Date (Year now) (Month now) (Day now) (ClockHour now) mi s + min dur Hour)"
  then show "if Date (Year now) (Month now) (Day now) (ClockHour now) mi s < now
          then Date (Year now) (Month now) (Day now) (ClockHour now) mi s
               < fst (nextHourRepeat self now dur mi s)
          else fst (nextHourRepeat self now dur mi s)
               = Date (Year now) (Month now) (Day now) (ClockHour now) mi s"
    using Hour_pos by (simp add: nextHourRepeat_min Let_def)
next
  assume "hasLog self (Date (Year now) (Month now) (Day now) h mi s)
       (Date (Year now) (Month now) (Day now) h mi s + min dur (Hour * 24))"
  then show "snd (nextDayRepeat self now dur h mi s) = WAIT"
    by (simp add: nextDayRepeat_min Let_def)
next
  assume "hasLog self (Date (Year now) (Month now) (Day now) h mi s)
       (Date (Year now) (Month now) (Day now) h mi s + min dur (Hour * 24))"
  then show "if Date (Year now) (Month now) (Day now) h mi s < now
          then Date (Year now) (Month now) (Day now) h mi s
               < fst (nextDayRepeat self now dur h mi s)
          else fst (nextDayRepeat self now dur h mi s)
               = Date (Year now) (Month now) (Day now) h mi s"
    using Hour_pos by (simp add: nextDayRepeat_min Let_def)
next
  fix t
  assume a: "t = untilWeekday dow (Date (Year now) (Month now) (Day now) h mi s)
         \<and> hasLog self t (t + min dur (Hour * 24 * 7))"
  then have t: "untilWeekday dow (Date (Year now) (Month now) (Day now) h mi s) = t"
    and l: "hasLog self t (t + min dur (Hour * 24 * 7))"
    by blast+
  from l show "snd (nextWeekRepeat self now dur dow h mi s) = WAIT"
    by (simp add: nextWeekRepeat_min Let_def t)
  have "t + 24 * Hour \<le> untilWeekday dow (t + 24 * Hour)"
    by (rule untilWeekday_ge)
  then have "t < untilWeekday dow (t + 24 * Hour)"
    using Hour_pos by simp
  with l show "if t < now then t < fst (nextWeekRepeat self now dur dow h mi s)
          else fst (nextWeekRepeat self now dur dow h mi s) = t"
    by (simp add: nextWeekRepeat_min Let_def t)
next
  fix t r
  assume a: "untilDay d (Date (Year now) (Month now) d h mi s) = Some t
         \<and> hasLog self t (t + min dur (Hour * 24 * 30))
         \<and> nextMonthRepeat self now dur d h mi s = Some r"
  then show "snd r = WAIT"
    by (auto simp: nextMonthRepeat_min Let_def split: option.splits if_splits)
  show "if t < now then t < fst r else fst r = t"
  proof (cases "t < now")
    case True
    with a obtain t' where u: "untilDay d (t + 24 * Hour) = Some t'" and r: "r = (t', WAIT)"
      by (auto simp: nextMonthRepeat_min Let_def split: option.splits if_splits)
    from untilDay_Some [OF u] have "t < t'" using Hour_pos by simp
    with True r show ?thesis by simp
  next
    case False
    with a show ?thesis
      by (auto simp: nextMonthRepeat_min Let_def split: option.splits if_splits)
  qed
qed

theorem logged_window_waits_witness:
  "hasLog jobLogged
      (Date (Year (Date 2024 1 1 9 45 0)) (Month (Date 2024 1 1 9 45 0)) (Day (Date 2024 1 1 9 45 0))
         (ClockHour (Date 2024 1 1 9 45 0)) 30 0)
      (Date (Year (Date 2024 1 1 9 45 0)) (Month (Date 2024 1 1 9 45 0)) (Day (Date 2024 1 1 9 45 0))
         (ClockHour (Date 2024 1 1 9 45 0)) 30 0 + min Hour Hour)
   \<and> nextHourRepeat jobLogged (Date 2024 1 1 9 45 0) Hour 30 0 = (Date 2024 1 1 10 30 0, WAIT)
   \<and> snd (nextHourRepeat jobLogged (Date 2024 1 1 9 45 0) Hour 30 0) = WAIT
   \<and> hasLog jobLogged
      (Date (Year (Date 2024 1 1 9 45 0)) (Month (Date 2024 1 1 9 45 0)) (Day (Date 2024 1 1 9 45 0))
         9 30 0)
      (Date (Year (Date 2024 1 1 9 45 0)) (Month (Date 2024 1 1 9 45 0)) (Day (Date 2024 1 1 9 45 0))
         9 30 0 + min Hour (Hour * 24))
   \<and> nextDayRepeat jobLogged (Date 2024 1 1 9 45 0) Hour 9 30 0 = (Date 2024 1 2 9 30 0, WAIT)
   \<and> snd (nextDayRepeat jobLogged (Date 2024 1 1 9 45 0) Hour 9 30 0) = WAIT
   \<and> Date 2024 1 1 9 30 0
      = untilWeekday Monday
          (Date (Year (Date 2024 1 1 9 45 0)) (Month (Date 2024 1 1 9 45 0))
             (Day (Date 2024 1 1 9 45 0)) 9 30 0)
   \<and> hasLog jobLogged (Date 2024 1 1 9 30 0) (Date 2024 1 1 9 30 0 + min Hour (Hour * 24 * 7))
   \<and> nextWeekRepeat jobLogged (Date 2024 1 1 9 45 0) Hour Monday 9 30 0
      = (Date 2024 1 8 9 30 0, WAIT)
   \<and> snd (nextWeekRepeat jobLogged (Date 2024 1 1 9 45 0) Hour Monday 9 30 0) = WAIT
   \<and> untilDay 1 (Date (Year (Date 2024 1 1 9 45 0)) (Month (Date 2024 1 1 9 45 0)) 1 9 30 0)
      = Some (Date 2024 1 1 9 30 0)
   \<and> hasLog jobLogged (Date 2024 1 1 9 30 0) (Date 2024 1 1 9 30 0 + min Hour (Hour * 24 * 30))
   \<and> nextMonthRepeat jobLogged (Date 2024 1 1 9 45 0) Hour 1 9 30 0
      = Some (Date 2024 2 1 9 30 0, WAIT)
   \<and> snd (Date 2024 2 1 9 30 0, WAIT) = WAIT"
proof -
  have h1: "hasLog jobLogged
      (Date (Year (Date 2024 1 1 9 45 0)) (Month (Date 2024 1 1 9 45 0)) (Day (Date 2024 1 1 9 45 0))
         (ClockHour (Date 2024 1 1 9 45 0)) 30 0)
      (Date (Year (Date 2024 1 1 9 45 0)) (Month (Date 2024 1 1 9 45 0)) (Day (Date 2024 1 1 9 45 0))
         (ClockHour (Date 2024 1 1 9 45 0)) 30 0 + min Hour Hour)"
    by code_simp
  have r1: "nextHourRepeat jobLogged (Date 2024 1 1 9 45 0) Hour 30 0
            = (Date 2024 1 1 10 30 0, WAIT)"
    by code_simp
  have h2: "hasLog jobLogged
      (Date (Year (Date 2024 1 1 9 45 0)) (Month (Date 2024 1 1 9 45 0)) (Day (Date 2024 1 1 9 45 0))
         9 30 0)
      (Date (Year (Date 2024 1 1 9 45 0)) (Month (Date 2024 1 1 9 45 0)) (Day (Date 2024 1 1 9 45 0))
         9 30 0 + min Hour (Hour * 24))"
    by code_simp
  have r2: "nextDayRepeat jobLogged (Date 2024 1 1 9 45 0) Hour 9 30 0
            = (Date 2024 1 2 9 30 0, WAIT)"
    by code_simp
  have h3a: "Date 2024 1 1 9 30 0
      = untilWeekday Monday
          (Date (Year (Date 2024 1 1 9 45 0)) (Month (Date 2024 1 1 9 45 0))
             (Day (Date 2024 1 1 9 45 0)) 9 30 0)"
    by code_simp
  have h3b: "hasLog jobLogged (Date 2024 1 1 9 30 0)
               (Date 2024 1 1 9 30 0 + min Hour (Hour * 24 * 7))"
    by code_simp
  have r3: "nextWeekRepeat jobLogged (Date 2024 1 1 9 45 0) Hour Monday 9 30 0
      = (Date 2024 1 8 9 30 0, WAIT)"
    by code_simp
  have h4a: "untilDay 1 (Date (Year (Date 2024 1 1 9 45 0)) (Month (Date 2024 1 1 9 45 0)) 1 9 30 0)
      = Some (Date 2024 1 1 9 30 0)"
    by code_simp
  have h4b: "hasLog jobLogged (Date 2024 1 1 9 30 0)
               (Date 2024 1 1 9 30 0 + min Hour (Hour * 24 * 30))"
    by code_simp
  have r4: "nextMonthRepeat jobLogged (Date 2024 1 1 9 45 0) Hour 1 9 30 0
      = Some (Date 2024 2 1 9 30 0, WAIT)"
    by code_simp
  note T = logged_window_waits [where self = jobLogged and now = "Date 2024 1 1 9 45 0"
      and dur = Hour and mi = 30 and s = 0 and h = 9 and dow = Monday and d = 1]
  note c1 = T [THEN conjunct1, rule_format, OF h1, THEN conjunct1]
  note c2 = T [THEN conjunct2, THEN conjunct1, rule_format, OF h2, THEN conjunct1]
  note c3 = T [THEN conjunct2, THEN conjunct2, THEN conjunct1, rule_format, OF conjI,
      OF h3a h3b, THEN conjunct1]
  note c4 = T [THEN conjunct2, THEN conjunct2, THEN conjunct2, THEN conjunct1, rule_format,
      OF conjI, OF h4a conjI, OF h4b r4, THEN conjunct1]
  from h1 r1 c1 h2 r2 c2 h3a h3b r3 c3 h4a h4b r4 c4 show ?thesis
    by (intro conjI)
qed

subsection \<open>The search for the day of the month\<close>

text \<open>
  Claim C4 requires the monthly search to be bounded for every anchor day.  The loop
  \<^verbatim>\<open>for t.Day() != day\<close> has no bound, and it ends exactly for the anchor days 1 to 31:
  the day-of-month pattern admits \<^verbatim>\<open>0th\<close> and \<^verbatim>\<open>32nd\<close> to \<^verbatim>\<open>99th\<close>, nothing checks
  the range, and for these the projector, \<^verbatim>\<open>parsePlan\<close> and \<^verbatim>\<open>Job.Parse\<close> never
  return.  (Day 31 in February does end: the search starts on the third of March and stops
  on the 31st.)
\<close>

theorem month_search_never_ends:
  "(untilDay d t = None \<longleftrightarrow> d < 1 \<or> 31 < d)
   \<and> nextMonthRepeat self now dur 0 h mi s = None
   \<and> parsePlan self now ''every 0th'' = None
   \<and> parsePlan self now ''every 32nd 09:00 ~1h'' = None
   \<and> parseLines now parsingPlan 0 self [''every 0th'', ''backup''] = None"
proof -
  have a: "parseSpecs now initial (fst (splitComment (Split ''every 0th'' CHR '' '')))
           = Inr (initial\<lparr>isRepeat := True, isMonthRepeat := True\<rparr>)"
    by code_simp
  have b: "parseSpecs now initial (fst (splitComment (Split ''every 32nd 09:00 ~1h'' CHR '' '')))
           = Inr (initial\<lparr>isRepeat := True, isMonthRepeat := True, day := 32, hour := 9,
                          duration := Hour\<rparr>)"
    by code_simp
  have 0: "untilDay d t = None \<longleftrightarrow> d < 1 \<or> 31 < d"
    by (rule untilDay_None_iff)
  have 1: "nextMonthRepeat self now dur 0 h mi s = None"
    by (simp add: nextMonthRepeat_out_of_range)
  have 2: "parsePlan self now ''every 0th'' = None"
    unfolding parsePlan_resolve [OF a]
    by (simp add: resolvePlan_def initial_def nextMonthRepeat_out_of_range)
  have 3: "parsePlan self now ''every 32nd 09:00 ~1h'' = None"
    unfolding parsePlan_resolve [OF b]
    by (simp add: resolvePlan_def initial_def nextMonthRepeat_out_of_range)
  have t: "TrimPrefix ''every 0th'' ''and '' = ''every 0th''"
    by code_simp
  have 4: "parseLines now parsingPlan 0 self [''every 0th'', ''backup''] = None"
    by (simp add: t 2)
  from 0 1 2 3 4 show ?thesis by (intro conjI)
qed

section \<open>The job descriptor parser\<close>

lemma hasLog_cong: "Log a = Log b \<Longrightarrow> hasLog a = hasLog b"
  by (intro ext) (simp add: hasLog_def)

lemma resolvePlan_Log:
  assumes "Log a = Log b"
  shows "resolvePlan a now c st = resolvePlan b now c st"
proof -
  have h: "hasLog a = hasLog b" using assms by (rule hasLog_cong)
  have "nextHourRepeat a now = nextHourRepeat b now"
    by (intro ext) (simp only: nextHourRepeat_def h)
  moreover have "nextDayRepeat a now = nextDayRepeat b now"
    by (intro ext) (simp only: nextDayRepeat_def h)
  moreover have "nextWeekRepeat a now = nextWeekRepeat b now"
    by (intro ext) (simp only: nextWeekRepeat_def h)
  moreover have "nextMonthRepeat a now = nextMonthRepeat b now"
    by (intro ext) (simp only: nextMonthRepeat_def h)
  ultimately show ?thesis by (simp only: resolvePlan_def)
qed

lemma parsePlan_Log:
  assumes "Log a = Log b"
  shows "parsePlan a now input = parsePlan b now input"
proof -
  have "resolvePlan a now = resolvePlan b now"
    by (intro ext) (rule resolvePlan_Log [OF assms])
  then show ?thesis by (simp only: parsePlan_def)
qed

lemma case_Cmd_Plans:
  "(case ls of [] \<Rightarrow> Cmd (self\<lparr>Plans := ps\<rparr>) | c # args \<Rightarrow> c)
   = (case ls of [] \<Rightarrow> Cmd self | c # args \<Rightarrow> c)"
  by (cases ls) simp_all

lemma parseLines_args:
  "parseLines now parsingArgs i self ls = Some (Inr (self\<lparr>Args := Args self @ ls\<rparr>))"
  by (induction ls arbitrary: i self) simp_all

lemma parseLines_plans:
  assumes "Log self' = Log self"
    and "list_all2 (\<lambda>l p. parsePlan self now (TrimPrefix l ''and '') = Some (Inr p))
           (takeWhile (\<lambda>l. HasPrefix l ''and '') ls) ps"
  shows "parseLines now parsingPlan (Suc i) self' ls =
     Some (Inr (self'\<lparr>Plans := Plans self' @ ps,
                     Cmd := (case dropWhile (\<lambda>l. HasPrefix l ''and '') ls of
                               [] \<Rightarrow> Cmd self' | c # args \<Rightarrow> c),
                     Args := Args self' @ drop 1 (dropWhile (\<lambda>l. HasPrefix l ''and '') ls)\<rparr>))"
  using assms
proof (induction ls arbitrary: self' ps i)
  case Nil
  then show ?case by simp
next
  case (Cons l ls)
  show ?case
  proof (cases "HasPrefix l ''and ''")
    case True
    with Cons.prems(2) obtain p ps' where ps: "ps = p # ps'"
      and p: "parsePlan self now (TrimPrefix l ''and '') = Some (Inr p)"
      and rest: "list_all2 (\<lambda>l p. parsePlan self now (TrimPrefix l ''and '') = Some (Inr p))
           (takeWhile (\<lambda>l. HasPrefix l ''and '') ls) ps'"
      by (auto simp: list_all2_Cons1)
    from p Cons.prems(1) have p': "parsePlan self' now (TrimPrefix l ''and '') = Some (Inr p)"
      by (simp add: parsePlan_Log [of self' self])
    have "Log (self'\<lparr>Plans := Plans self' @ [p]\<rparr>) = Log self"
      using Cons.prems(1) by simp
    from Cons.IH [OF this rest, of "Suc i"] True p' ps show ?thesis
      by (simp add: case_Cmd_Plans)
  next
    case False
    with Cons.prems(2) have "ps = []" by simp
    with False show ?thesis by (simp add: parseLines_args)
  qed
qed

lemma parseLines_plans_conv:
  assumes "parseLines now parsingPlan (Suc i) self' ls = Some (Inr job)"
    and "Log self' = Log self"
  shows "\<exists>ps. list_all2 (\<lambda>l p. parsePlan self now (TrimPrefix l ''and '') = Some (Inr p))
           (takeWhile (\<lambda>l. HasPrefix l ''and '') ls) ps"
  using assms
proof (induction ls arbitrary: self' i)
  case Nil
  then show ?case by simp
next
  case (Cons l ls)
  show ?case
  proof (cases "HasPrefix l ''and ''")
    case True
    with Cons.prems(1) obtain p where p: "parsePlan self' now (TrimPrefix l ''and '') = Some (Inr p)"
      and rest: "parseLines now parsingPlan (Suc (Suc i)) (self'\<lparr>Plans := Plans self' @ [p]\<rparr>) ls
                 = Some (Inr job)"
      by (auto split: option.splits sum.splits)
    have "Log (self'\<lparr>Plans := Plans self' @ [p]\<rparr>) = Log self"
      using Cons.prems(2) by simp
    from Cons.IH [OF rest this] obtain ps
      where "list_all2 (\<lambda>l p. parsePlan self now (TrimPrefix l ''and '') = Some (Inr p))
           (takeWhile (\<lambda>l. HasPrefix l ''and '') ls) ps" by blast
    moreover from p Cons.prems(2) have "parsePlan self now (TrimPrefix l ''and '') = Some (Inr p)"
      by (simp add: parsePlan_Log [of self' self])
    ultimately have "list_all2 (\<lambda>l p. parsePlan self now (TrimPrefix l ''and '') = Some (Inr p))
           (takeWhile (\<lambda>l. HasPrefix l ''and '') (l # ls)) (p # ps)"
      using True by simp
    then show ?thesis by blast
  next
    case False
    then show ?thesis by simp
  qed
qed

text \<open>
  Claim C9: of the kept lines of a job file, the first one and the lines starting with
  \<^verbatim>\<open>and \<close> that follow it directly are the plan lines.  \<^verbatim>\<open>Job.Parse\<close> returns a job
  exactly when each of them, without its \<^verbatim>\<open>and \<close> prefix, resolves to a plan, and the
  job it returns has exactly these plans appended in order, one per plan line, the first
  line after them as the command, and every line after the command as one argument, lines
  starting with \<^verbatim>\<open>and \<close> included.  The witness is the scenario of the two chained
  lines, read at noon of the first of June 2024: the first plan is expired, the second
  waits.
\<close>

theorem parse_lines_shape:
  "parseLines now parsingPlan 0 self (first # rest) = Some (Inr job) \<longleftrightarrow>
     (\<exists>ps. list_all2 (\<lambda>l p. parsePlan self now (TrimPrefix l ''and '') = Some (Inr p))
             (first # takeWhile (\<lambda>l. HasPrefix l ''and '') rest) ps
        \<and> job = self\<lparr>Plans := Plans self @ ps,
                     Cmd := (case dropWhile (\<lambda>l. HasPrefix l ''and '') rest of
                               [] \<Rightarrow> Cmd self | c # args \<Rightarrow> c),
                     Args := Args self @ drop 1 (dropWhile (\<lambda>l. HasPrefix l ''and '') rest)\<rparr>)"
proof
  assume a: "parseLines now parsingPlan 0 self (first # rest) = Some (Inr job)"
  then obtain p where p: "parsePlan self now (TrimPrefix first ''and '') = Some (Inr p)"
    and rest: "parseLines now parsingPlan (Suc 0) (self\<lparr>Plans := Plans self @ [p]\<rparr>) rest
               = Some (Inr job)"
    by (auto split: option.splits sum.splits)
  have l: "Log (self\<lparr>Plans := Plans self @ [p]\<rparr>) = Log self" by simp
  from parseLines_plans_conv [OF rest l] obtain ps
    where ps: "list_all2 (\<lambda>l p. parsePlan self now (TrimPrefix l ''and '') = Some (Inr p))
           (takeWhile (\<lambda>l. HasPrefix l ''and '') rest) ps" by blast
  from parseLines_plans [OF l ps, of 0] rest
  have "job = self\<lparr>Plans := Plans self @ p # ps,
                     Cmd := (case dropWhile (\<lambda>l. HasPrefix l ''and '') rest of
                               [] \<Rightarrow> Cmd self | c # args \<Rightarrow> c),
                     Args := Args self @ drop 1 (dropWhile (\<lambda>l. HasPrefix l ''and '') rest)\<rparr>"
    by (simp add: case_Cmd_Plans)
  moreover from p ps
  have "list_all2 (\<lambda>l p. parsePlan self now (TrimPrefix l ''and '') = Some (Inr p))
             (first # takeWhile (\<lambda>l. HasPrefix l ''and '') rest) (p # ps)"
    by simp
  ultimately show "\<exists>ps. list_all2 (\<lambda>l p. parsePlan self now (TrimPrefix l ''and '') = Some (Inr p))
             (first # takeWhile (\<lambda>l. HasPrefix l ''and '') rest) ps
        \<and> job = self\<lparr>Plans := Plans self @ ps,
                     Cmd := (case dropWhile (\<lambda>l. HasPrefix l ''and '') rest of
                               [] \<Rightarrow> Cmd self | c # args \<Rightarrow> c),
                     Args := Args self @ drop 1 (dropWhile (\<lambda>l. HasPrefix l ''and '') rest)\<rparr>"
    by blast
next
  assume "\<exists>ps. list_all2 (\<lambda>l p. parsePlan self now (TrimPrefix l ''and '') = Some (Inr p))
             (first # takeWhile (\<lambda>l. HasPrefix l ''and '') rest) ps
        \<and> job = self\<lparr>Plans := Plans self @ ps,
                     Cmd := (case dropWhile (\<lambda>l. HasPrefix l ''and '') rest of
                               [] \<Rightarrow> Cmd self | c # args \<Rightarrow> c),
                     Args := Args self @ drop 1 (dropWhile (\<lambda>l. HasPrefix l ''and '') rest)\<rparr>"
  then obtain ps where ps: "list_all2 (\<lambda>l p. parsePlan self now (TrimPrefix l ''and '') = Some (Inr p))
             (first # takeWhile (\<lambda>l. HasPrefix l ''and '') rest) ps"
    and j: "job = self\<lparr>Plans := Plans self @ ps,
                     Cmd := (case dropWhile (\<lambda>l. HasPrefix l ''and '') rest of
                               [] \<Rightarrow> Cmd self | c # args \<Rightarrow> c),
                     Args := Args self @ drop 1 (dropWhile (\<lambda>l. HasPrefix l ''and '') rest)\<rparr>"
    by blast
  from ps obtain p ps' where e: "ps = p # ps'"
    and p: "parsePlan self now (TrimPrefix first ''and '') = Some (Inr p)"
    and rest: "list_all2 (\<lambda>l p. parsePlan self now (TrimPrefix l ''and '') = Some (Inr p))
           (takeWhile (\<lambda>l. HasPrefix l ''and '') rest) ps'"
    by (auto simp: list_all2_Cons1)
  have "Log (self\<lparr>Plans := Plans self @ [p]\<rparr>) = Log self" by simp
  from parseLines_plans [OF this rest, of 0] p e j
  show "parseLines now parsingPlan 0 self (first # rest) = Some (Inr job)"
    by (simp add: case_Cmd_Plans)
qed

theorem parse_lines_shape_witness:
  "list_all2 (\<lambda>l p. parsePlan job0 (Date 2024 6 1 12 0 0) (TrimPrefix l ''and '') = Some (Inr p))
     (''2024-06-01 08:00'' # takeWhile (\<lambda>l. HasPrefix l ''and '')
                               [''and 2024-06-02 08:00'', ''echo'', ''hello world'', ''and more''])
     [\<lparr>Time = Date 2024 6 1 8 0 0, Comment = [], State = EXPIRED\<rparr>,
      \<lparr>Time = Date 2024 6 2 8 0 0, Comment = [], State = WAIT\<rparr>]
   \<and> parseLines (Date 2024 6 1 12 0 0) parsingPlan 0 job0
        [''2024-06-01 08:00'', ''and 2024-06-02 08:00'', ''echo'', ''hello world'', ''and more'']
      = Some (Inr \<lparr>Cmd = ''echo'', Args = [''hello world'', ''and more''], Path = ''backup'',
                   Plans = [\<lparr>Time = Date 2024 6 1 8 0 0, Comment = [], State = EXPIRED\<rparr>,
                            \<lparr>Time = Date 2024 6 2 8 0 0, Comment = [], State = WAIT\<rparr>],
                   Log = []\<rparr>)
   \<and> jobLines (''2024-06-01 08:00'' @ [CHR 0x0A] @ ''and 2024-06-02 08:00'' @ [CHR 0x0A]
          @ ''# greet'' @ [CHR 0x0A] @ [CHR 0x0A] @ ''echo'' @ [CHR 0x0A] @ ''  hello world ''
          @ [CHR 0x0A] @ ''and more'' @ [CHR 0x0A])
      = [''2024-06-01 08:00'', ''and 2024-06-02 08:00'', ''echo'', ''hello world'', ''and more'']"
proof -
  have c: "jobLines (''2024-06-01 08:00'' @ [CHR 0x0A] @ ''and 2024-06-02 08:00'' @ [CHR 0x0A]
          @ ''# greet'' @ [CHR 0x0A] @ [CHR 0x0A] @ ''echo'' @ [CHR 0x0A] @ ''  hello world ''
          @ [CHR 0x0A] @ ''and more'' @ [CHR 0x0A])
      = [''2024-06-01 08:00'', ''and 2024-06-02 08:00'', ''echo'', ''hello world'', ''and more'']"
    by code_simp
  have t: "takeWhile (\<lambda>l. HasPrefix l ''and '')
             [''and 2024-06-02 08:00'', ''echo'', ''hello world'', ''and more'']
           = [''and 2024-06-02 08:00'']"
    by code_simp
  have d: "dropWhile (\<lambda>l. HasPrefix l ''and '')
             [''and 2024-06-02 08:00'', ''echo'', ''hello world'', ''and more'']
           = [''echo'', ''hello world'', ''and more'']"
    by code_simp
  have p1: "parsePlan job0 (Date 2024 6 1 12 0 0) (TrimPrefix ''2024-06-01 08:00'' ''and '')
            = Some (Inr \<lparr>Time = Date 2024 6 1 8 0 0, Comment = [], State = EXPIRED\<rparr>)"
    by code_simp
  have p2: "parsePlan job0 (Date 2024 6 1 12 0 0) (TrimPrefix ''and 2024-06-02 08:00'' ''and '')
            = Some (Inr \<lparr>Time = Date 2024 6 2 8 0 0, Comment = [], State = WAIT\<rparr>)"
    by code_simp
  have a: "list_all2 (\<lambda>l p. parsePlan job0 (Date 2024 6 1 12 0 0) (TrimPrefix l ''and '') = Some (Inr p))
     (''2024-06-01 08:00'' # takeWhile (\<lambda>l. HasPrefix l ''and '')
                               [''and 2024-06-02 08:00'', ''echo'', ''hello world'', ''and more''])
     [\<lparr>Time = Date 2024 6 1 8 0 0, Comment = [], State = EXPIRED\<rparr>,
      \<lparr>Time = Date 2024 6 2 8 0 0, Comment = [], State = WAIT\<rparr>]"
    unfolding t using p1 p2 by simp
  have b: "parseLines (Date 2024 6 1 12 0 0) parsingPlan 0 job0
        [''2024-06-01 08:00'', ''and 2024-06-02 08:00'', ''echo'', ''hello world'', ''and more'']
      = Some (Inr \<lparr>Cmd = ''echo'', Args = [''hello world'', ''and more''], Path = ''backup'',
                   Plans = [\<lparr>Time = Date 2024 6 1 8 0 0, Comment = [], State = EXPIRED\<rparr>,
                            \<lparr>Time = Date 2024 6 2 8 0 0, Comment = [], State = WAIT\<rparr>],
                   Log = []\<rparr>)"
    using parse_lines_shape [THEN iffD2, OF exI, OF conjI, OF a refl, unfolded d]
    by (simp add: job0_def)
  from a b c show ?thesis by (intro conjI)
qed

end
